theory Spec2Isabelle
  imports
    Complex_Main
    "HOL-Library.Char_ord"
    "HOL-Library.List_Lexorder"
    "HOL-Library.AList"
begin

section \<open>Time values of the JavaScript runtime\<close>

text \<open>
  The routes work on JavaScript \<open>Date\<close> objects.  A valid \<open>Date\<close> is its time value, the
  number of milliseconds since 1970-01-01T00:00:00Z, an integer.  The functions below are
  the abstract operations of ECMAScript (section "Time Values and Time Range") that
  \<open>getFullYear\<close>, \<open>getMonth\<close>, \<open>setMonth\<close> and \<open>setDate\<close> are specified with.  The offset of
  the server's local time zone is the parameter \<open>tza\<close> (milliseconds east of UTC), taken
  constant: daylight-saving transitions are not represented.
\<close>

type_synonym time = int

definition msPerDay :: int where
  "msPerDay = 86400000"

definition Day :: "time \<Rightarrow> int" where
  "Day t = t div msPerDay"

definition TimeWithinDay :: "time \<Rightarrow> int" where
  "TimeWithinDay t = t mod msPerDay"

definition DaysInYear :: "int \<Rightarrow> int" where
  "DaysInYear y =
     (if y mod 4 \<noteq> 0 then 365
      else if y mod 100 \<noteq> 0 then 366
      else if y mod 400 \<noteq> 0 then 365
      else 366)"

definition DayFromYear :: "int \<Rightarrow> int" where
  "DayFromYear y =
     365 * (y - 1970) + (y - 1969) div 4 - (y - 1901) div 100 + (y - 1601) div 400"

lemma div_step:
  assumes n: "0 < n"
  shows "((x::int) + 1) div n = x div n + (if (x + 1) mod n = 0 then 1 else 0)"
proof -
  have x: "n * (x div n) + x mod n = x" by simp
  have r: "0 \<le> x mod n" "x mod n < n" using n by simp_all
  show ?thesis
  proof (cases "x mod n + 1 = n")
    case True
    have "n * (x div n + 1) = n * (x div n) + n"
      by (simp add: algebra_simps)
    then have e: "x + 1 = n * (x div n + 1) + 0"
      using x True by linarith
    have "(x + 1) div n = x div n + 1"
      by (rule int_div_pos_eq [OF e]) (use n in simp_all)
    moreover have "(x + 1) mod n = 0"
      by (rule int_mod_pos_eq [OF e]) (use n in simp_all)
    ultimately show ?thesis by simp
  next
    case False
    then have lt: "x mod n + 1 < n" using r by linarith
    have e: "x + 1 = n * (x div n) + (x mod n + 1)" using x by linarith
    have "(x + 1) div n = x div n"
      by (rule int_div_pos_eq [OF e]) (use r lt in simp_all)
    moreover have "(x + 1) mod n = x mod n + 1"
      by (rule int_mod_pos_eq [OF e]) (use r lt in simp_all)
    ultimately show ?thesis using r by simp
  qed
qed

lemma mod4_shift: "((y::int) - 1968) mod 4 = y mod 4"
proof -
  have "(y - 1968) mod 4 = (y + 4 * (- 492)) mod 4" by simp
  also have "\<dots> = y mod 4" by (rule mod_mult_self2)
  finally show ?thesis .
qed

lemma mod100_shift: "((y::int) - 1900) mod 100 = y mod 100"
proof -
  have "(y - 1900) mod 100 = (y + 100 * (- 19)) mod 100" by simp
  also have "\<dots> = y mod 100" by (rule mod_mult_self2)
  finally show ?thesis .
qed

lemma mod400_shift: "((y::int) - 1600) mod 400 = y mod 400"
proof -
  have "(y - 1600) mod 400 = (y + 400 * (- 4)) mod 400" by simp
  also have "\<dots> = y mod 400" by (rule mod_mult_self2)
  finally show ?thesis .
qed

lemma mod100_mod4: "y mod 100 = 0 \<Longrightarrow> (y::int) mod 4 = 0"
  using mod_mod_cancel [of 4 100 y] by simp

lemma mod400_mod100: "y mod 400 = 0 \<Longrightarrow> (y::int) mod 100 = 0"
  using mod_mod_cancel [of 100 400 y] by simp

lemma DayFromYear_Suc: "DayFromYear (y + 1) = DayFromYear y + DaysInYear y"
proof -
  have a: "(y + 1 - 1969) div 4 = (y - 1969) div 4 + (if y mod 4 = 0 then 1 else 0)"
    using div_step [of 4 "y - 1969"] mod4_shift [of y] by (simp add: algebra_simps)
  have b: "(y + 1 - 1901) div 100 = (y - 1901) div 100 + (if y mod 100 = 0 then 1 else 0)"
    using div_step [of 100 "y - 1901"] mod100_shift [of y] by (simp add: algebra_simps)
  have c: "(y + 1 - 1601) div 400 = (y - 1601) div 400 + (if y mod 400 = 0 then 1 else 0)"
    using div_step [of 400 "y - 1601"] mod400_shift [of y] by (simp add: algebra_simps)
  show ?thesis
    unfolding DayFromYear_def DaysInYear_def a b c
    using mod100_mod4 [of y] mod400_mod100 [of y] by auto
qed

lemma DaysInYear_pos: "365 \<le> DaysInYear y"
  by (simp add: DaysInYear_def)

lemma DaysInYear_le: "DaysInYear y \<le> 366"
  by (simp add: DaysInYear_def)

text \<open>
  \<open>YearFromTime t\<close> is "the largest integer \<open>y\<close> such that \<open>TimeFromYear y \<le> t\<close>".  It is
  computed by climbing from a year that is not after the wanted one.
\<close>

function yearClimb :: "int \<Rightarrow> int \<Rightarrow> int" where
  "yearClimb d y = (if DayFromYear (y + 1) \<le> d then yearClimb d (y + 1) else y)"
  by pat_completeness auto
termination
proof (relation "measure (\<lambda>(d, y). nat (d + 1 - DayFromYear (y + 1)))")
  show "wf (measure (\<lambda>(d, y). nat (d + 1 - DayFromYear (y + 1))))"
    by simp
next
  fix d y :: int
  assume "DayFromYear (y + 1) \<le> d"
  moreover have "DayFromYear (y + 1 + 1) = DayFromYear (y + 1) + DaysInYear (y + 1)"
    by (rule DayFromYear_Suc)
  moreover have "365 \<le> DaysInYear (y + 1)"
    by (rule DaysInYear_pos)
  ultimately show "((d, y + 1), (d, y))
      \<in> measure (\<lambda>(d, y). nat (d + 1 - DayFromYear (y + 1)))"
    by simp
qed

declare yearClimb.simps [simp del]

definition YearFromDay :: "int \<Rightarrow> int" where
  "YearFromDay d = yearClimb d (1969 + (if 0 \<le> d then d div 366 else d div 365))"

definition YearFromTime :: "time \<Rightarrow> int" where
  "YearFromTime t = YearFromDay (Day t)"

definition InLeapYear :: "time \<Rightarrow> int" where
  "InLeapYear t = (if DaysInYear (YearFromTime t) = 366 then 1 else 0)"

definition DayWithinYear :: "time \<Rightarrow> int" where
  "DayWithinYear t = Day t - DayFromYear (YearFromTime t)"

definition MonthFromTime :: "time \<Rightarrow> int" where
  "MonthFromTime t =
     (let d = DayWithinYear t; l = InLeapYear t in
      if d < 31 then 0
      else if d < 59 + l then 1
      else if d < 90 + l then 2
      else if d < 120 + l then 3
      else if d < 151 + l then 4
      else if d < 181 + l then 5
      else if d < 212 + l then 6
      else if d < 243 + l then 7
      else if d < 273 + l then 8
      else if d < 304 + l then 9
      else if d < 334 + l then 10
      else 11)"

definition DateFromTime :: "time \<Rightarrow> int" where
  "DateFromTime t =
     (let d = DayWithinYear t; l = InLeapYear t; m = MonthFromTime t in
      if m = 0 then d + 1
      else if m = 1 then d - 30
      else if m = 2 then d - 58 - l
      else if m = 3 then d - 89 - l
      else if m = 4 then d - 119 - l
      else if m = 5 then d - 150 - l
      else if m = 6 then d - 180 - l
      else if m = 7 then d - 211 - l
      else if m = 8 then d - 242 - l
      else if m = 9 then d - 272 - l
      else if m = 10 then d - 303 - l
      else d - 333 - l)"

definition LocalTime :: "int \<Rightarrow> time \<Rightarrow> time" where
  "LocalTime tza t = t + tza"

definition UTC :: "int \<Rightarrow> time \<Rightarrow> time" where
  "UTC tza t = t - tza"

text \<open>
  \<open>MakeDay year month date\<close>: the month may lie outside 0..11 and the date outside the
  month; both carry over, as ECMAScript specifies.
\<close>

definition DayFromMonth :: "int \<Rightarrow> int \<Rightarrow> int" where
  "DayFromMonth mn l =
     (if mn = 0 then 0
      else if mn = 1 then 31
      else if mn = 2 then 59 + l
      else if mn = 3 then 90 + l
      else if mn = 4 then 120 + l
      else if mn = 5 then 151 + l
      else if mn = 6 then 181 + l
      else if mn = 7 then 212 + l
      else if mn = 8 then 243 + l
      else if mn = 9 then 273 + l
      else if mn = 10 then 304 + l
      else 334 + l)"

definition MakeDay :: "int \<Rightarrow> int \<Rightarrow> int \<Rightarrow> int" where
  "MakeDay year month dt =
     (let ym = year + month div 12;
          mn = month mod 12;
          l = (if DaysInYear ym = 366 then 1 else 0)
      in DayFromYear ym + DayFromMonth mn l + dt - 1)"

definition MakeDate :: "int \<Rightarrow> int \<Rightarrow> time" where
  "MakeDate day tm = day * msPerDay + tm"

subsection \<open>The methods of \<open>Date\<close> that the routes call\<close>

definition getFullYear :: "int \<Rightarrow> time \<Rightarrow> int" where
  "getFullYear tza t = YearFromTime (LocalTime tza t)"

definition getMonth :: "int \<Rightarrow> time \<Rightarrow> int" where
  "getMonth tza t = MonthFromTime (LocalTime tza t)"

definition getDate :: "int \<Rightarrow> time \<Rightarrow> int" where
  "getDate tza t = DateFromTime (LocalTime tza t)"

definition setMonth :: "int \<Rightarrow> time \<Rightarrow> int \<Rightarrow> time" where
  "setMonth tza t m =
     (let lt = LocalTime tza t in
      UTC tza (MakeDate (MakeDay (YearFromTime lt) m (DateFromTime lt)) (TimeWithinDay lt)))"

definition setDate :: "int \<Rightarrow> time \<Rightarrow> int \<Rightarrow> time" where
  "setDate tza t dt =
     (let lt = LocalTime tza t in
      UTC tza (MakeDate (MakeDay (YearFromTime lt) (MonthFromTime lt) dt) (TimeWithinDay lt)))"

text \<open>\<open>new Date('YYYY-MM-DD')\<close>: a date-only ISO string is midnight UTC of that day.\<close>

definition isoDate :: "int \<Rightarrow> int \<Rightarrow> int \<Rightarrow> time" where
  "isoDate y m d = MakeDate (MakeDay y (m - 1) d) 0"

subsection \<open>Strings\<close>

definition digitChar :: "nat \<Rightarrow> char" where
  "digitChar n = ''0123456789'' ! n"

fun digits :: "nat \<Rightarrow> string" where
  "digits n = (if n < 10 then [digitChar n] else digits (n div 10) @ [digitChar (n mod 10)])"

declare digits.simps [simp del]

text \<open>\<open>String(n)\<close> and the template literal on an integral number.\<close>

definition String :: "int \<Rightarrow> string" where
  "String n = (if n < 0 then CHR ''-'' # digits (nat (- n)) else digits (nat n))"

definition padStart :: "nat \<Rightarrow> char \<Rightarrow> string \<Rightarrow> string" where
  "padStart n c s = replicate (n - length s) c @ s"

text \<open>
  \<open>a.localeCompare(b)\<close> on month keys.  The keys consist of ASCII digits and the hyphen,
  on which the locale's collation agrees with the order of the character codes; the
  comparison is modelled as the lexicographic order of the codes.
\<close>

definition localeCompare :: "string \<Rightarrow> string \<Rightarrow> int" where
  "localeCompare a b = (if a < b then - 1 else if a = b then 0 else 1)"

text \<open>
  \<open>Array.prototype.sort\<close> with a comparator is stable; it is modelled as the stable
  insertion sort under the comparator.
\<close>

fun insort_cmp :: "('a \<Rightarrow> 'a \<Rightarrow> int) \<Rightarrow> 'a \<Rightarrow> 'a list \<Rightarrow> 'a list" where
  "insort_cmp cmp x [] = [x]"
| "insort_cmp cmp x (y # ys) =
     (if cmp x y \<le> 0 then x # y # ys else y # insort_cmp cmp x ys)"

definition sort_cmp :: "('a \<Rightarrow> 'a \<Rightarrow> int) \<Rightarrow> 'a list \<Rightarrow> 'a list" where
  "sort_cmp cmp xs = foldr (insort_cmp cmp) xs []"

section \<open>Monthly aggregation (GET /api/egg-production/monthly)\<close>

text \<open>The rows selected by the route: \<open>select: { date: true, count: true }\<close>.\<close>

record entry =
  date :: time
  count :: int

text \<open>The value type of \<open>monthlyMap\<close> and the rows of the response.\<close>

record monthData =
  totalCount :: int
  daysRecorded :: int

record monthlyRow = monthData +
  month :: string

definition monthKey :: "int \<Rightarrow> time \<Rightarrow> string" where
  "monthKey tza d =
     (let year = getFullYear tza d;
          mth = padStart 2 (CHR ''0'') (String (getMonth tza d + 1))
      in String year @ ''-'' @ mth)"

text \<open>
  One iteration of \<open>for (const entry of entries)\<close>.  \<open>monthlyMap\<close> is a JavaScript \<open>Map\<close>,
  which keeps its keys in insertion order: an association list, where \<open>AList.update\<close>
  replaces the value of a present key in place and appends an absent key.  The loop body
  sets the key to zeros when the map does not have it, gets the key's object and adds to
  its two fields; \<open>data\<close> is that object before the additions.  The counts are integers
  of the table's integer column, on which the addition of JavaScript numbers is exact.
\<close>

definition addEntry :: "int \<Rightarrow> (string \<times> monthData) list \<Rightarrow> 'a entry_scheme
    \<Rightarrow> (string \<times> monthData) list" where
  "addEntry tza monthlyMap e =
     (let k = monthKey tza (date e);
          data = (case map_of monthlyMap k of
                    None \<Rightarrow> \<lparr>totalCount = 0, daysRecorded = 0\<rparr>
                  | Some d \<Rightarrow> d)
      in AList.update k
           \<lparr>totalCount = totalCount data + count e, daysRecorded = daysRecorded data + 1\<rparr>
           monthlyMap)"

definition groupByMonth :: "int \<Rightarrow> 'a entry_scheme list \<Rightarrow> (string \<times> monthData) list" where
  "groupByMonth tza entries = foldl (addEntry tza) [] entries"

definition toRow :: "string \<times> monthData \<Rightarrow> monthlyRow" where
  "toRow p = \<lparr>totalCount = totalCount (snd p), daysRecorded = daysRecorded (snd p), month = fst p\<rparr>"

definition monthlyData :: "int \<Rightarrow> 'a entry_scheme list \<Rightarrow> monthlyRow list" where
  "monthlyData tza entries =
     sort_cmp (\<lambda>a b. localeCompare (month b) (month a)) (map toRow (groupByMonth tza entries))"

text \<open>
  The aggregation in the specification's words: the records of a month key form its
  group; the row of a key holds the sum of \<open>count\<close> over the group and the number of
  records in it.
\<close>

definition groupOf :: "int \<Rightarrow> 'a entry_scheme list \<Rightarrow> string \<Rightarrow> 'a entry_scheme list" where
  "groupOf tza entries k = filter (\<lambda>e. monthKey tza (date e) = k) entries"

definition monthRow :: "int \<Rightarrow> 'a entry_scheme list \<Rightarrow> string \<Rightarrow> monthlyRow" where
  "monthRow tza entries k =
     \<lparr>totalCount = sum_list (map count (groupOf tza entries k)),
      daysRecorded = int (length (groupOf tza entries k)),
      month = k\<rparr>"

text \<open>
  The totals row of \<open>MonthlyAggregateTable\<close>:
  \<open>monthlyData.reduce((sum, m) => sum + m.totalCount, 0)\<close> and the same over
  \<open>daysRecorded\<close>.
\<close>

definition totalEggs :: "monthlyRow list \<Rightarrow> int" where
  "totalEggs rows = foldl (\<lambda>sum m. sum + totalCount m) 0 rows"

definition totalDaysRecorded :: "monthlyRow list \<Rightarrow> int" where
  "totalDaysRecorded rows = foldl (\<lambda>sum m. sum + daysRecorded m) 0 rows"

section \<open>Values that reach the validation schema\<close>

datatype jsnumber = Finite real | NaN | Infinity | MinusInfinity

datatype jsvalue =
    JUndefined
  | JNull
  | JBoolean bool
  | JNumber jsnumber
  | JString string
  | JDate "time option"
  | JObject

text \<open>
  \<open>JDate None\<close> is an Invalid Date (its time value is NaN); \<open>JObject\<close> stands for every
  other object or array.  A finite number is the real that the double denotes; the
  statements below hold for every real, so for every double.

  What differs between two JavaScript processes that run the same code: the local time
  zone, the instant at which the process evaluated the module that declares the schema,
  the \<open>Date\<close> constructor on a string (\<open>None\<close>: Invalid Date) and the validation library's
  built-in message for a value of the wrong type.
\<close>

record runtime =
  localTZA :: int
  loaded :: time
  parseDate :: "string \<Rightarrow> time option"
  localeError :: "string \<Rightarrow> jsvalue \<Rightarrow> string"

section \<open>The validation library\<close>

text \<open>
  The repository pins zod 4.1.12 (SETUP_COMPLETE.md).  A schema first checks the type of
  its input and then runs its checks in the order in which they were attached.  Every
  issue carries the flag \<open>continue\<close>; the remaining checks are skipped as soon as an issue
  without it has been raised.
\<close>

datatype issue_code = invalid_type | too_big | too_small

record issue =
  code :: issue_code
  path :: "string list"
  message :: string
  continue :: bool

definition aborted :: "issue list \<Rightarrow> bool" where
  "aborted issues = list_ex (\<lambda>i. \<not> continue i) issues"

fun runChecks :: "('a \<Rightarrow> issue list) list \<Rightarrow> 'a \<Rightarrow> issue list \<Rightarrow> issue list" where
  "runChecks [] input issues = issues"
| "runChecks (ch # checks) input issues =
     (if aborted issues then runChecks checks input issues
      else runChecks checks input (issues @ ch input))"

definition isInteger :: "real \<Rightarrow> bool" where
  "isInteger x = (of_int \<lfloor>x\<rfloor> = x)"

definition MAX_SAFE_INTEGER :: real where
  "MAX_SAFE_INTEGER = 9007199254740991"

definition isSafeInteger :: "real \<Rightarrow> bool" where
  "isSafeInteger x = (isInteger x \<and> \<bar>x\<bar> \<le> MAX_SAFE_INTEGER)"

text \<open>
  \<open>.int(msg)\<close> attaches the number format \<open>safeint\<close>: a number that is not an integer
  raises an issue that stops the checks after it; an integer outside the safe range
  raises \<open>too_big\<close> or \<open>too_small\<close>, with the same message, and lets them run.
\<close>

definition int_check :: "string \<Rightarrow> real \<Rightarrow> issue list" where
  "int_check msg input =
     (if \<not> isInteger input then
        [\<lparr>code = invalid_type, path = [], message = msg, continue = False\<rparr>]
      else if \<not> isSafeInteger input then
        (if 0 < input then [\<lparr>code = too_big, path = [], message = msg, continue = True\<rparr>]
         else [\<lparr>code = too_small, path = [], message = msg, continue = True\<rparr>])
      else [])"

text \<open>\<open>.min(value, msg)\<close> and \<open>.max(value, msg)\<close>: inclusive bounds.\<close>

definition gte_check :: "'a::ord \<Rightarrow> string \<Rightarrow> 'a \<Rightarrow> issue list" where
  "gte_check bound msg input =
     (if bound \<le> input then []
      else [\<lparr>code = too_small, path = [], message = msg, continue = True\<rparr>])"

definition lte_check :: "'a::ord \<Rightarrow> string \<Rightarrow> 'a \<Rightarrow> issue list" where
  "lte_check bound msg input =
     (if input \<le> bound then []
      else [\<lparr>code = too_big, path = [], message = msg, continue = True\<rparr>])"

text \<open>
  \<open>z.number()\<close> accepts finite numbers only, \<open>z.date()\<close> valid \<open>Date\<close> objects only.  The
  result is the issues raised (\<open>Inl\<close>) or the accepted value (\<open>Inr\<close>).
\<close>

definition settle :: "issue list \<Rightarrow> 'a \<Rightarrow> issue list + 'a" where
  "settle issues v = (if issues = [] then Inr v else Inl issues)"

definition number_schema ::
    "runtime \<Rightarrow> (real \<Rightarrow> issue list) list \<Rightarrow> jsvalue \<Rightarrow> issue list + real" where
  "number_schema rt checks input =
     (case input of
        JNumber (Finite x) \<Rightarrow> settle (runChecks checks x []) x
      | _ \<Rightarrow> Inl [\<lparr>code = invalid_type, path = [],
                  message = localeError rt ''number'' input, continue = False\<rparr>])"

definition date_schema ::
    "runtime \<Rightarrow> (time \<Rightarrow> issue list) list \<Rightarrow> jsvalue \<Rightarrow> issue list + time" where
  "date_schema rt checks input =
     (case input of
        JDate (Some t) \<Rightarrow> settle (runChecks checks t []) t
      | _ \<Rightarrow> Inl [\<lparr>code = invalid_type, path = [],
                  message = localeError rt ''date'' input, continue = False\<rparr>])"

definition issuesAt :: "string \<Rightarrow> issue list + 'a \<Rightarrow> issue list" where
  "issuesAt key r =
     (case r of Inl issues \<Rightarrow> map (\<lambda>i. i\<lparr>path := key # path i\<rparr>) issues | Inr _ \<Rightarrow> [])"

section \<open>The schema (lib/validations/egg-production.ts)\<close>

text \<open>
  \<open>new Date()\<close> is an argument of \<open>.max\<close>: it is evaluated once, when the module is
  evaluated, and the schema keeps that instant (\<open>loaded\<close>) as its bound.  \<open>z.object\<close>
  validates every key of its shape, in the order of the shape, and gathers the issues of
  all of them under the key's path.  The count of an accepted input is integral, so its
  floor is its value.
\<close>

definition date_field :: "runtime \<Rightarrow> jsvalue \<Rightarrow> issue list + time" where
  "date_field rt = date_schema rt [lte_check (loaded rt) ''Date cannot be in the future'']"

definition count_field :: "runtime \<Rightarrow> jsvalue \<Rightarrow> issue list + real" where
  "count_field rt =
     number_schema rt
       [int_check ''Count must be a whole number'', gte_check 0 ''Count cannot be negative'']"

definition eggProductionSchema :: "runtime \<Rightarrow> jsvalue \<Rightarrow> jsvalue \<Rightarrow> issue list + entry" where
  "eggProductionSchema rt d c =
     (case (date_field rt d, count_field rt c) of
        (Inr t, Inr x) \<Rightarrow> Inr \<lparr>date = t, count = \<lfloor>x\<rfloor>\<rparr>
      | (rd, rc) \<Rightarrow> Inl (issuesAt ''date'' rd @ issuesAt ''count'' rc))"

text \<open>The form's schema (AddEditEggProductionDialog): \<open>const clientFormSchema = eggProductionSchema\<close>.\<close>

definition clientFormSchema :: "runtime \<Rightarrow> jsvalue \<Rightarrow> jsvalue \<Rightarrow> issue list + entry" where
  "clientFormSchema = eggProductionSchema"

text \<open>The issues of an input, empty when it is accepted.\<close>

definition issuesOf :: "issue list + 'a \<Rightarrow> issue list" where
  "issuesOf r = (case r of Inl issues \<Rightarrow> issues | Inr _ \<Rightarrow> [])"

text \<open>The rule violations of the specification, as the schema reports them.\<close>

definition DateInFuture :: issue where
  "DateInFuture =
     \<lparr>code = too_big, path = [''date''], message = ''Date cannot be in the future'',
      continue = True\<rparr>"

definition CountNegative :: issue where
  "CountNegative =
     \<lparr>code = too_small, path = [''count''], message = ''Count cannot be negative'',
      continue = True\<rparr>"

definition CountNotInteger :: "issue \<Rightarrow> bool" where
  "CountNotInteger i =
     (path i = [''count''] \<and> message i = ''Count must be a whole number'')"

section \<open>The record store\<close>

text \<open>
  Modelled from the spec: the table of egg-production records and the database client's
  operations on it (the schema file and the generated client are not among the sources).
  A record has an opaque unique id generated at creation, its owner, a calendar date
  without time of day, a count, and the timestamps \<open>createdAt\<close> (set once) and \<open>updatedAt\<close>
  (refreshed on every mutation).  At most one record exists per owner and date; an insert
  or update that would break this is rejected with a uniqueness violation.  The date
  column holds a calendar date: of every \<open>Date\<close> handed to the store, written or compared,
  only the UTC calendar day counts, and a stored date reads back as midnight UTC of its day.
  The store is taken to be reachable and to hold any integer count, so the only error it
  raises on these paths is the uniqueness violation.
\<close>

record EggProduction = entry +
  id' :: string
  userId :: string
  createdAt :: time
  updatedAt :: time

record db =
  rows :: "EggProduction list"
  issued :: nat

definition cuid :: "nat \<Rightarrow> string" where
  "cuid n = CHR ''c'' # digits n"

definition dbDate :: "time \<Rightarrow> time" where
  "dbDate t = Day t * msPerDay"

text \<open>
  What a route's \<open>try\<close> block can throw: the schema's \<open>ZodError\<close>, the store's error whose
  message contains "Unique constraint failed", or anything else.
\<close>

datatype thrown = ZodError "issue list" | UniqueConstraintFailed | OtherError

definition create :: "db \<Rightarrow> string \<Rightarrow> entry \<Rightarrow> time \<Rightarrow> thrown + EggProduction \<times> db" where
  "create d uid data now =
     (if list_ex (\<lambda>r. userId r = uid \<and> date r = dbDate (date data)) (rows d)
      then Inl UniqueConstraintFailed
      else
        (let e = \<lparr>date = dbDate (date data), count = count data, id' = cuid (issued d),
                  userId = uid, createdAt = now, updatedAt = now\<rparr>
         in Inr (e, d\<lparr>rows := rows d @ [e], issued := Suc (issued d)\<rparr>)))"

definition findUnique :: "db \<Rightarrow> string \<Rightarrow> EggProduction option" where
  "findUnique d i = find (\<lambda>r. id' r = i) (rows d)"

text \<open>A record of the owner exists for the calendar day of the given instant.\<close>

definition hasEntry :: "db \<Rightarrow> string \<Rightarrow> time \<Rightarrow> bool" where
  "hasEntry d uid t = list_ex (\<lambda>r. userId r = uid \<and> date r = dbDate t) (rows d)"

definition update :: "db \<Rightarrow> string \<Rightarrow> entry \<Rightarrow> time \<Rightarrow> thrown + EggProduction \<times> db" where
  "update d i data now =
     (case findUnique d i of
        None \<Rightarrow> Inl OtherError
      | Some r \<Rightarrow>
          if list_ex (\<lambda>r'. id' r' \<noteq> i \<and> userId r' = userId r \<and> date r' = dbDate (date data))
               (rows d)
          then Inl UniqueConstraintFailed
          else
            (let e = r\<lparr>date := dbDate (date data), count := count data, updatedAt := now\<rparr>
             in Inr (e, d\<lparr>rows := map (\<lambda>x. if id' x = i then e else x) (rows d)\<rparr>)))"

text \<open>
  The record an insert stores, the record an update leaves, and the collision that makes
  an update fail: another record of the same owner on the new date.
\<close>

definition newEntry :: "db \<Rightarrow> string \<Rightarrow> entry \<Rightarrow> time \<Rightarrow> EggProduction" where
  "newEntry d uid data now =
     \<lparr>date = dbDate (date data), count = count data, id' = cuid (issued d),
      userId = uid, createdAt = now, updatedAt = now\<rparr>"



text \<open>
  \<open>findMany\<close> with \<open>where: { userId, date: { gte, lte } }\<close>, either bound optional, ordered
  by date.
\<close>

definition inRange :: "time option \<Rightarrow> time option \<Rightarrow> time \<Rightarrow> bool" where
  "inRange gte lte t =
     ((case gte of None \<Rightarrow> True | Some g \<Rightarrow> dbDate g \<le> t) \<and>
      (case lte of None \<Rightarrow> True | Some l \<Rightarrow> t \<le> dbDate l))"

definition findMany :: "db \<Rightarrow> string \<Rightarrow> time option \<Rightarrow> time option \<Rightarrow> EggProduction list" where
  "findMany d uid gte lte = filter (\<lambda>r. userId r = uid \<and> inRange gte lte (date r)) (rows d)"

definition orderByDateAsc :: "EggProduction list \<Rightarrow> EggProduction list" where
  "orderByDateAsc rs = sort_key date rs"

definition orderByDateDesc :: "EggProduction list \<Rightarrow> EggProduction list" where
  "orderByDateDesc rs = rev (sort_key date rs)"

section \<open>The routes (app/api/egg-production)\<close>

text \<open>
  A response is its status and its JSON body.  The session is the authenticated user's id,
  if any.  A request body is text that is not JSON, the JSON \<open>null\<close>, or another JSON value
  whose properties \<open>date\<close> and \<open>count\<close> read as the two given values (\<open>JUndefined\<close> when
  absent).
\<close>

datatype detail = Detail string string

datatype json =
    Error string
  | ErrorDetails string "detail list"
  | EntryBody EggProduction
  | EntriesBody "EggProduction list"
  | MonthlyBody "monthlyRow list"

type_synonym response = "nat \<times> json"

datatype request_body = InvalidJson | JsonNull | Json jsvalue jsvalue

fun join :: "string \<Rightarrow> string list \<Rightarrow> string" where
  "join sep [] = []"
| "join sep [x] = x"
| "join sep (x # y # ys) = x @ sep @ join sep (y # ys)"

definition messageMap :: "(string \<times> (string \<times> string) list) list" where
  "messageMap =
     [(''count'',
        [(''Count must be a whole number'', ''Egg count must be a whole number (no decimals).''),
         (''Count cannot be negative'', ''Egg count cannot be negative. It must be 0 or greater.'')]),
      (''date'',
        [(''Date cannot be in the future'',
          ''You cannot log eggs for a future date. Please select today or an earlier date.'')])]"

definition formatZodError :: "issue \<Rightarrow> detail" where
  "formatZodError i =
     (let field = join ''.'' (path i) in
      case map_of messageMap field of
        None \<Rightarrow> Detail field (message i)
      | Some fieldMessages \<Rightarrow>
          (case map_of fieldMessages (message i) of
             None \<Rightarrow> Detail field (message i)
           | Some m \<Rightarrow> Detail field m))"

definition unauthorized :: response where
  "unauthorized = (401, Error ''Unauthorized. Please sign in.'')"

text \<open>\<open>if (typeof dateValue === 'string') dateValue = new Date(dateValue)\<close>\<close>

definition dateValue :: "runtime \<Rightarrow> jsvalue \<Rightarrow> jsvalue" where
  "dateValue rt v = (case v of JString s \<Rightarrow> JDate (parseDate rt s) | _ \<Rightarrow> v)"

text \<open>The body of a route's \<open>try\<close> up to the validated data: what it throws, or the data.\<close>

definition validated :: "runtime \<Rightarrow> request_body \<Rightarrow> thrown + entry" where
  "validated rt body =
     (case body of
        InvalidJson \<Rightarrow> Inl OtherError
      | JsonNull \<Rightarrow> Inl OtherError
      | Json d c \<Rightarrow>
          (case eggProductionSchema rt (dateValue rt d) c of
             Inl issues \<Rightarrow> Inl (ZodError issues)
           | Inr data \<Rightarrow> Inr data))"

definition duplicateOnCreate :: response where
  "duplicateOnCreate =
     (400, ErrorDetails ''An entry already exists for this date''
        [Detail ''date''
           ''You already have an entry for this date. Please edit the existing entry instead.''])"


text \<open>The \<open>catch\<close> blocks of POST and PUT.\<close>

definition catch :: "response \<Rightarrow> string \<Rightarrow> thrown \<Rightarrow> response" where
  "catch duplicate failed e =
     (case e of
        ZodError issues \<Rightarrow> (400, ErrorDetails ''Validation failed'' (map formatZodError issues))
      | UniqueConstraintFailed \<Rightarrow> duplicate
      | OtherError \<Rightarrow> (500, Error failed))"

definition POST :: "runtime \<Rightarrow> time \<Rightarrow> string option \<Rightarrow> request_body \<Rightarrow> db \<Rightarrow> response \<times> db" where
  "POST rt now session body d =
     (case session of
        None \<Rightarrow> (unauthorized, d)
      | Some uid \<Rightarrow>
          if uid = [] then (unauthorized, d)
          else
            (case validated rt body of
               Inl e \<Rightarrow> (catch duplicateOnCreate ''Failed to create entry. Please try again.'' e, d)
             | Inr data \<Rightarrow>
                 (case create d uid data now of
                    Inl e \<Rightarrow>
                      (catch duplicateOnCreate ''Failed to create entry. Please try again.'' e, d)
                  | Inr (e, d') \<Rightarrow> ((201, EntryBody e), d'))))"

text \<open>
  GET /api/egg-production: the query parameters are strings, if given; an empty string
  counts as not given, and a bound that is not a date makes the query fail.
\<close>

definition queryDate :: "runtime \<Rightarrow> string option \<Rightarrow> thrown + time option" where
  "queryDate rt p =
     (case p of
        None \<Rightarrow> Inr None
      | Some s \<Rightarrow>
          if s = [] then Inr None
          else (case parseDate rt s of None \<Rightarrow> Inl OtherError | Some t \<Rightarrow> Inr (Some t)))"

definition GET :: "runtime \<Rightarrow> string option \<Rightarrow> string option \<Rightarrow> string option \<Rightarrow> db \<Rightarrow> response" where
  "GET rt session startDateStr endDateStr d =
     (case session of
        None \<Rightarrow> unauthorized
      | Some uid \<Rightarrow>
          if uid = [] then unauthorized
          else
            (case (queryDate rt startDateStr, queryDate rt endDateStr) of
               (Inr gte, Inr lte) \<Rightarrow> (200, EntriesBody (orderByDateDesc (findMany d uid gte lte)))
             | _ \<Rightarrow> (500, Error ''Failed to fetch entries. Please try again.'')))"


text \<open>GET /api/egg-production/monthly\<close>

definition sixMonthsAgo :: "runtime \<Rightarrow> time \<Rightarrow> time" where
  "sixMonthsAgo rt now =
     (let t = setMonth (localTZA rt) now (getMonth (localTZA rt) now - 6)
      in setDate (localTZA rt) t 1)"

definition GET_monthly :: "runtime \<Rightarrow> time \<Rightarrow> string option \<Rightarrow> db \<Rightarrow> response" where
  "GET_monthly rt now session d =
     (case session of
        None \<Rightarrow> unauthorized
      | Some uid \<Rightarrow>
          if uid = [] then unauthorized
          else
            (let entries =
                   map entry.truncate
                     (orderByDateAsc (findMany d uid (Some (sixMonthsAgo rt now)) None))
             in (200, MonthlyBody (monthlyData (localTZA rt) entries))))"

text \<open>The issue of \<open>.int\<close> on the count, under its code and flag.\<close>

definition wholeNumberIssue :: "issue_code \<Rightarrow> bool \<Rightarrow> issue" where
  "wholeNumberIssue c k =
     \<lparr>code = c, path = [''count''], message = ''Count must be a whole number'', continue = k\<rparr>"

section \<open>Example processes\<close>

text \<open>
  For the concrete scenarios: a \<open>Date\<close> constructor on date-only strings \<open>YYYY-MM-DD\<close>
  (midnight UTC of the day), a server on UTC that evaluated the schema's module on
  2025-11-17 at 09:00 UTC, and a browser that evaluated it on 2025-11-19 at 12:00 UTC.
\<close>

definition digitVal :: "char \<Rightarrow> nat option" where
  "digitVal c =
     map_of
       [(CHR ''0'', 0), (CHR ''1'', 1), (CHR ''2'', 2), (CHR ''3'', 3), (CHR ''4'', 4),
        (CHR ''5'', 5), (CHR ''6'', 6), (CHR ''7'', 7), (CHR ''8'', 8), (CHR ''9'', 9)] c"

fun numberOf :: "nat \<Rightarrow> string \<Rightarrow> nat option" where
  "numberOf acc [] = Some acc"
| "numberOf acc (c # cs) =
     (case digitVal c of None \<Rightarrow> None | Some v \<Rightarrow> numberOf (10 * acc + v) cs)"

definition parseIsoDate :: "string \<Rightarrow> time option" where
  "parseIsoDate s =
     (if length s = 10 \<and> s ! 4 = CHR ''-'' \<and> s ! 7 = CHR ''-'' then
        (case (numberOf 0 (take 4 s), numberOf 0 (take 2 (drop 5 s)), numberOf 0 (drop 8 s)) of
           (Some y, Some m, Some d) \<Rightarrow>
             if 1 \<le> m \<and> m \<le> 12 \<and> 1 \<le> d \<and> d \<le> 31 then Some (isoDate (int y) (int m) (int d))
             else None
         | _ \<Rightarrow> None)
      else None)"

definition server0 :: runtime where
  "server0 =
     \<lparr>localTZA = 0, loaded = isoDate 2025 11 17 + 32400000, parseDate = parseIsoDate,
      localeError = (\<lambda>expected input. ''Invalid input: expected '' @ expected)\<rparr>"

definition client0 :: runtime where
  "client0 = server0\<lparr>loaded := isoDate 2025 11 19 + 43200000\<rparr>"


definition entryA :: EggProduction where
  "entryA =
     \<lparr>date = isoDate 2025 11 10, count = 5, id' = ''c0'', userId = ''u1'',
      createdAt = isoDate 2025 11 17 + 36000000, updatedAt = isoDate 2025 11 17 + 36000000\<rparr>"



definition db1 :: db where
  "db1 = \<lparr>rows = [entryA], issued = 1\<rparr>"


text \<open>
  The window scenario: user \<open>u2\<close> logged 40, 35, 30, 25, 20, 15, 10 and 5 eggs on the 15th
  of January to August 2024; in the second table also 1 egg on 2024-09-10.
\<close>

definition windowRow :: "nat \<Rightarrow> int \<Rightarrow> int \<Rightarrow> int \<Rightarrow> EggProduction" where
  "windowRow n m d c =
     \<lparr>date = isoDate 2024 m d, count = c, id' = cuid n, userId = ''u2'',
      createdAt = isoDate 2024 9 1, updatedAt = isoDate 2024 9 1\<rparr>"

definition dbWindow :: db where
  "dbWindow =
     \<lparr>rows = [windowRow 0 1 15 40, windowRow 1 2 15 35, windowRow 2 3 15 30, windowRow 3 4 15 25,
              windowRow 4 5 15 20, windowRow 5 6 15 15, windowRow 6 7 15 10, windowRow 7 8 15 5],
      issued = 8\<rparr>"

definition dbWindow9 :: db where
  "dbWindow9 = dbWindow\<lparr>rows := rows dbWindow @ [windowRow 8 9 10 1], issued := 9\<rparr>"

section \<open>Properties of the time values\<close>

lemma DayFromYear_add: "DayFromYear y + 365 * int k \<le> DayFromYear (y + int k)"
proof (induction k)
  case 0
  then show ?case by simp
next
  case (Suc k)
  have "DayFromYear (y + int (Suc k)) = DayFromYear (y + int k + 1)"
    by (simp add: algebra_simps)
  also have "\<dots> = DayFromYear (y + int k) + DaysInYear (y + int k)"
    by (rule DayFromYear_Suc)
  finally show ?case
    using Suc DaysInYear_pos [of "y + int k"] by simp
qed

lemma DayFromYear_mono:
  assumes "y \<le> y'"
  shows "DayFromYear y \<le> DayFromYear y'"
proof -
  define k where "k = nat (y' - y)"
  have e: "y + int k = y'" using assms by (simp add: k_def)
  have "DayFromYear y \<le> DayFromYear y + 365 * int k" by simp
  also have "\<dots> \<le> DayFromYear (y + int k)" by (rule DayFromYear_add)
  finally show ?thesis by (simp add: e)
qed

lemma yearClimb_bounds:
  "DayFromYear y \<le> d \<Longrightarrow>
     DayFromYear (yearClimb d y) \<le> d \<and> d < DayFromYear (yearClimb d y + 1)"
proof (induction d y rule: yearClimb.induct)
  case (1 d y)
  show ?case
  proof (cases "DayFromYear (y + 1) \<le> d")
    case True
    then have "yearClimb d y = yearClimb d (y + 1)"
      by (subst yearClimb.simps) simp
    with "1.IH" [OF True True] show ?thesis by simp
  next
    case False
    then have "yearClimb d y = y"
      by (subst yearClimb.simps) simp
    with False "1.prems" show ?thesis by simp
  qed
qed

lemma guess_nonneg: "0 \<le> k \<Longrightarrow> DayFromYear (1969 + k) \<le> 366 * k"
  unfolding DayFromYear_def by simp

lemma guess_neg: "k < 0 \<Longrightarrow> DayFromYear (1969 + k) \<le> 365 * k"
  unfolding DayFromYear_def by simp

lemma guess_le: "DayFromYear (1969 + (if 0 \<le> d then d div 366 else d div 365)) \<le> d"
proof (cases "0 \<le> d")
  case True
  then have "0 \<le> d div 366" by simp
  from guess_nonneg [OF this] have "DayFromYear (1969 + d div 366) \<le> 366 * (d div 366)" .
  also have "\<dots> \<le> d" by simp
  finally show ?thesis using True by simp
next
  case False
  then have "d div 365 < 0" by simp
  from guess_neg [OF this] have "DayFromYear (1969 + d div 365) \<le> 365 * (d div 365)" .
  also have "\<dots> \<le> d" by simp
  finally show ?thesis using False by simp
qed

lemma YearFromDay_bounds:
  "DayFromYear (YearFromDay d) \<le> d \<and> d < DayFromYear (YearFromDay d + 1)"
  unfolding YearFromDay_def by (rule yearClimb_bounds [OF guess_le])

lemma YearFromDay_unique:
  assumes lo: "DayFromYear y \<le> d" and hi: "d < DayFromYear (y + 1)"
  shows "YearFromDay d = y"
proof (rule ccontr)
  assume ne: "YearFromDay d \<noteq> y"
  have b: "DayFromYear (YearFromDay d) \<le> d" "d < DayFromYear (YearFromDay d + 1)"
    using YearFromDay_bounds [of d] by simp_all
  show False
  proof (cases "YearFromDay d < y")
    case True
    then have "DayFromYear (YearFromDay d + 1) \<le> DayFromYear y"
      by (intro DayFromYear_mono) simp
    with lo b show False by simp
  next
    case False
    with ne have "y + 1 \<le> YearFromDay d" by simp
    then have "DayFromYear (y + 1) \<le> DayFromYear (YearFromDay d)"
      by (rule DayFromYear_mono)
    with hi b show False by simp
  qed
qed

lemma Day_MakeDate:
  "0 \<le> tm \<Longrightarrow> tm < msPerDay \<Longrightarrow> Day (MakeDate day tm) = day"
  unfolding Day_def MakeDate_def msPerDay_def
  by (simp add: div_pos_pos_trivial)

lemma TimeWithinDay_MakeDate:
  "0 \<le> tm \<Longrightarrow> tm < msPerDay \<Longrightarrow> TimeWithinDay (MakeDate day tm) = tm"
  unfolding TimeWithinDay_def MakeDate_def msPerDay_def
  by (simp add: mod_pos_pos_trivial)

lemma TimeWithinDay_range: "0 \<le> TimeWithinDay t \<and> TimeWithinDay t < msPerDay"
  unfolding TimeWithinDay_def msPerDay_def by simp

lemma month_cases:
  "0 \<le> (mn::int) \<Longrightarrow> mn \<le> 11 \<Longrightarrow>
     mn = 0 \<or> mn = 1 \<or> mn = 2 \<or> mn = 3 \<or> mn = 4 \<or> mn = 5 \<or> mn = 6 \<or> mn = 7 \<or>
     mn = 8 \<or> mn = 9 \<or> mn = 10 \<or> mn = 11"
  by arith

lemma fields_of_MakeDay:
  fixes y mn dt tm :: int
  assumes mn: "0 \<le> mn" "mn \<le> 11" and dt: "1 \<le> dt" "dt \<le> 28"
    and tm: "0 \<le> tm" "tm < msPerDay"
  defines "t \<equiv> MakeDate (MakeDay y mn dt) tm"
  shows "YearFromTime t = y \<and> MonthFromTime t = mn \<and> DateFromTime t = dt \<and> TimeWithinDay t = tm"
proof -
  define l :: int where "l = (if DaysInYear y = 366 then 1 else 0)"
  have md: "MakeDay y mn dt = DayFromYear y + DayFromMonth mn l + dt - 1"
    using mn by (simp add: MakeDay_def l_def Let_def div_pos_pos_trivial mod_pos_pos_trivial)
  have day: "Day t = DayFromYear y + DayFromMonth mn l + dt - 1"
    using Day_MakeDate [OF tm] md by (simp add: t_def)
  have l01: "l = 0 \<or> l = 1" by (simp add: l_def)
  have dfm: "0 \<le> DayFromMonth mn l" "DayFromMonth mn l \<le> 335"
    using l01 by (auto simp: DayFromMonth_def)
  have yr: "YearFromTime t = y"
    unfolding YearFromTime_def
  proof (rule YearFromDay_unique)
    show "DayFromYear y \<le> Day t" using day dfm dt by simp
    show "Day t < DayFromYear (y + 1)"
      using day dfm dt DayFromYear_Suc [of y] DaysInYear_pos [of y] by simp
  qed
  have leap: "InLeapYear t = l" by (simp add: InLeapYear_def yr l_def)
  have dwy: "DayWithinYear t = DayFromMonth mn l + dt - 1"
    by (simp add: DayWithinYear_def yr day)
  have mo: "MonthFromTime t = mn"
    using month_cases [OF mn] l01 dt
    by (elim disjE; simp add: MonthFromTime_def dwy leap DayFromMonth_def Let_def)
  have da: "DateFromTime t = dt"
    using month_cases [OF mn] l01
    by (elim disjE; simp add: DateFromTime_def mo dwy leap DayFromMonth_def Let_def)
  show ?thesis
    using yr mo da TimeWithinDay_MakeDate [OF tm, of "MakeDay y mn dt"] by (simp add: t_def)
qed

section \<open>Properties of the aggregation\<close>

lemma map_of_addEntry:
  "map_of (addEntry tza m e) k =
     (if k = monthKey tza (date e) then
        Some \<lparr>totalCount = totalCount (case map_of m k of None \<Rightarrow> \<lparr>totalCount = 0, daysRecorded = 0\<rparr> | Some d \<Rightarrow> d) + count e,
              daysRecorded = daysRecorded (case map_of m k of None \<Rightarrow> \<lparr>totalCount = 0, daysRecorded = 0\<rparr> | Some d \<Rightarrow> d) + 1\<rparr>
      else map_of m k)"
  by (simp add: addEntry_def Let_def update_conv')

lemma groupByMonth_snoc: "groupByMonth tza (es @ [e]) = addEntry tza (groupByMonth tza es) e"
  by (simp add: groupByMonth_def)

lemma map_of_groupByMonth:
  "map_of (groupByMonth tza es) k =
     (if groupOf tza es k = [] then None
      else Some \<lparr>totalCount = sum_list (map count (groupOf tza es k)),
                 daysRecorded = int (length (groupOf tza es k))\<rparr>)"
proof (induction es rule: rev_induct)
  case Nil
  then show ?case by (simp add: groupByMonth_def groupOf_def)
next
  case (snoc e es)
  show ?case
    unfolding groupByMonth_snoc map_of_addEntry snoc.IH
    by (simp add: groupOf_def)
qed

lemma distinct_groupByMonth: "distinct (map fst (groupByMonth tza es))"
proof (induction es rule: rev_induct)
  case Nil
  then show ?case by (simp add: groupByMonth_def)
next
  case (snoc e es)
  then show ?case
    unfolding groupByMonth_snoc by (simp add: addEntry_def Let_def distinct_update)
qed

lemma keys_groupByMonth: "set (map fst (groupByMonth tza es)) = (\<lambda>e. monthKey tza (date e)) ` set es"
proof (induction es rule: rev_induct)
  case Nil
  then show ?case by (simp add: groupByMonth_def)
next
  case (snoc e es)
  have "fst ` set (addEntry tza (groupByMonth tza es) e)
      = insert (monthKey tza (date e)) (fst ` set (groupByMonth tza es))"
    using dom_update [of "monthKey tza (date e)" _ "groupByMonth tza es"]
    by (simp add: addEntry_def Let_def)
  with snoc show ?case
    unfolding groupByMonth_snoc by auto
qed

definition byMonthDesc :: "monthlyRow \<Rightarrow> monthlyRow \<Rightarrow> int" where
  "byMonthDesc a b = localeCompare (month b) (month a)"

lemma byMonthDesc_le: "byMonthDesc a b \<le> 0 \<longleftrightarrow> month b \<le> month a"
  by (auto simp: byMonthDesc_def localeCompare_def)

lemma set_insort_cmp: "set (insort_cmp cmp x ys) = insert x (set ys)"
  by (induction ys) auto

lemma length_insort_cmp: "length (insort_cmp cmp x ys) = Suc (length ys)"
  by (induction ys) auto

lemma sum_insort_cmp:
  fixes f :: "'a \<Rightarrow> int"
  shows "sum_list (map f (insort_cmp cmp x ys)) = f x + sum_list (map f ys)"
  by (induction ys) auto

lemma set_sort_cmp: "set (sort_cmp cmp xs) = set xs"
  unfolding sort_cmp_def by (induction xs) (auto simp: set_insort_cmp)

lemma length_sort_cmp: "length (sort_cmp cmp xs) = length xs"
  unfolding sort_cmp_def by (induction xs) (auto simp: length_insort_cmp)

lemma sum_sort_cmp:
  fixes f :: "'a \<Rightarrow> int"
  shows "sum_list (map f (sort_cmp cmp xs)) = sum_list (map f xs)"
  unfolding sort_cmp_def by (induction xs) (auto simp: sum_insort_cmp)

lemma sorted_insort_desc:
  "sorted_wrt (\<lambda>a b. month b \<le> month a) ys \<Longrightarrow>
   sorted_wrt (\<lambda>a b. month b \<le> month a) (insort_cmp byMonthDesc x ys)"
proof (induction ys)
  case Nil
  then show ?case by simp
next
  case (Cons y ys)
  show ?case
  proof (cases "month y \<le> month x")
    case True
    then have "\<forall>b \<in> set ys. month b \<le> month x"
      using Cons.prems by auto
    with True Cons.prems show ?thesis
      by (simp add: byMonthDesc_le)
  next
    case False
    then have "month x \<le> month y" by simp
    with False Cons show ?thesis
      by (auto simp: byMonthDesc_le set_insort_cmp)
  qed
qed

lemma sorted_sort_desc:
  "sorted_wrt (\<lambda>a b. month b \<le> month a) (sort_cmp byMonthDesc xs)"
  unfolding sort_cmp_def by (induction xs) (auto intro: sorted_insort_desc)

lemma monthlyData_alt:
  "monthlyData tza es = sort_cmp byMonthDesc (map toRow (groupByMonth tza es))"
  by (simp add: monthlyData_def byMonthDesc_def [abs_def])

lemma month_toRow: "month (toRow p) = fst p"
  by (simp add: toRow_def)

lemma months_monthlyData:
  "map month (monthlyData tza es) = rev (sort (remdups (map (\<lambda>e. monthKey tza (date e)) es)))"
proof -
  let ?g = "groupByMonth tza es"
  let ?out = "monthlyData tza es"
  have set_out: "set ?out = toRow ` set ?g"
    by (simp add: monthlyData_alt set_sort_cmp)
  have len: "length ?out = length ?g"
    by (simp add: monthlyData_alt length_sort_cmp)
  have keys: "set (map month ?out) = (\<lambda>e. monthKey tza (date e)) ` set es"
    using keys_groupByMonth [of tza es]
    by (simp add: set_out image_image month_toRow)
  have "card (set (map month ?out)) = length (map month ?out)"
    using keys keys_groupByMonth [of tza es] distinct_groupByMonth [of tza es] len
    by (metis distinct_card length_map)
  then have dist: "distinct (map month ?out)"
    by (rule card_distinct)
  have "sorted_wrt (\<lambda>a b. month b \<le> month a) ?out"
    unfolding monthlyData_alt by (rule sorted_sort_desc)
  then have "sorted (rev (map month ?out))"
    by (simp add: sorted_wrt_rev sorted_wrt_map)
  moreover have "distinct (rev (map month ?out))"
    using dist by simp
  moreover have "sorted (sort (remdups (map (\<lambda>e. monthKey tza (date e)) es)))"
    by simp
  moreover have "distinct (sort (remdups (map (\<lambda>e. monthKey tza (date e)) es)))"
    by simp
  moreover have "set (rev (map month ?out)) = set (sort (remdups (map (\<lambda>e. monthKey tza (date e)) es)))"
    using keys by simp
  ultimately have "rev (map month ?out) = sort (remdups (map (\<lambda>e. monthKey tza (date e)) es))"
    by (rule sorted_distinct_set_unique)
  then show ?thesis
    by (metis rev_rev_ident)
qed

lemma row_monthlyData:
  assumes "r \<in> set (monthlyData tza es)"
  shows "r = monthRow tza es (month r)"
proof -
  from assms obtain k v where kv: "(k, v) \<in> set (groupByMonth tza es)" and r: "r = toRow (k, v)"
    by (auto simp: monthlyData_alt set_sort_cmp)
  have "map_of (groupByMonth tza es) k = Some v"
    using kv distinct_groupByMonth [of tza es] by simp
  then have "v = \<lparr>totalCount = sum_list (map count (groupOf tza es k)),
                 daysRecorded = int (length (groupOf tza es k))\<rparr>"
    unfolding map_of_groupByMonth by (simp split: if_splits)
  then show ?thesis
    by (simp add: r toRow_def monthRow_def)
qed

lemma monthlyData_eq:
  "monthlyData tza es =
     map (monthRow tza es) (rev (sort (remdups (map (\<lambda>e. monthKey tza (date e)) es))))"
proof -
  have "map (monthRow tza es) (map month (monthlyData tza es)) = monthlyData tza es"
    unfolding map_map by (rule map_idI) (simp add: row_monthlyData [symmetric])
  then show ?thesis
    by (simp add: months_monthlyData)
qed

lemma MonthFromTime_range: "0 \<le> MonthFromTime t \<and> MonthFromTime t \<le> 11"
  by (simp add: MonthFromTime_def Let_def)

lemma digits_two: "n < 100 \<Longrightarrow> padStart 2 (CHR ''0'') (digits n) = [digitChar (n div 10), digitChar (n mod 10)]"
proof (cases "n < 10")
  case True
  then show ?thesis
    by (simp add: digits.simps [of n] padStart_def digitChar_def)
next
  case False
  assume "n < 100"
  with False have "n div 10 < 10" by simp
  with False show ?thesis
    by (simp add: digits.simps [of n] digits.simps [of "n div 10"] padStart_def)
qed

lemma monthKey_format:
  "monthKey tza t =
     String (getFullYear tza t) @ ''-'' @
       [digitChar (nat (getMonth tza t + 1) div 10), digitChar (nat (getMonth tza t + 1) mod 10)]"
proof -
  have m: "0 \<le> getMonth tza t" "getMonth tza t \<le> 11"
    using MonthFromTime_range [of "LocalTime tza t"] by (simp_all add: getMonth_def)
  then have r: "nat (getMonth tza t + 1) < 100"
    by linarith
  show ?thesis
    using m digits_two [OF r] by (simp add: monthKey_def String_def Let_def)
qed

lemma MakeDay_date: "MakeDay y m dt = MakeDay y m 1 + dt - 1"
  by (simp add: MakeDay_def Let_def)

lemma split_time: "t = MakeDate (Day t) (TimeWithinDay t)"
  by (simp add: MakeDate_def Day_def TimeWithinDay_def)

lemma month_of_day_range:
  assumes mn: "0 \<le> mn" "mn \<le> 11"
    and lo: "MakeDay y mn 1 \<le> Day t" and hi: "Day t \<le> MakeDay y mn 28"
  shows "YearFromTime t = y \<and> MonthFromTime t = mn"
proof -
  define dt where "dt = Day t - MakeDay y mn 1 + 1"
  have dt: "1 \<le> dt" "dt \<le> 28"
    using lo hi MakeDay_date [of y mn 28] by (simp_all add: dt_def)
  have "Day t = MakeDay y mn dt"
    using MakeDay_date [of y mn dt] by (simp add: dt_def)
  then have "t = MakeDate (MakeDay y mn dt) (TimeWithinDay t)"
    using split_time [of t] by simp
  then show ?thesis
    using fields_of_MakeDay [OF mn dt, of "TimeWithinDay t" y] TimeWithinDay_range [of t]
    by simp
qed

lemma Day_near:
  assumes "\<bar>z\<bar> \<le> 50400000"
  shows "d - 1 \<le> Day (d * msPerDay + z) \<and> Day (d * msPerDay + z) \<le> d"
proof -
  have "(d - 1) * msPerDay \<le> d * msPerDay + z" "d * msPerDay + z \<le> d * msPerDay + (msPerDay - 1)"
    using assms by (simp_all add: msPerDay_def algebra_simps)
  then have "((d - 1) * msPerDay) div msPerDay \<le> Day (d * msPerDay + z)"
    "Day (d * msPerDay + z) \<le> (d * msPerDay + (msPerDay - 1)) div msPerDay"
    unfolding Day_def by (simp_all add: zdiv_mono1 msPerDay_def)
  then show ?thesis
    by (simp add: msPerDay_def)
qed

lemma fields_near_isoDate:
  assumes z: "\<bar>z\<bar> \<le> 50400000" and m: "1 \<le> m" "m \<le> 12" and d: "2 \<le> d" "d \<le> 28"
  shows "getFullYear z (isoDate y m d) = y \<and> getMonth z (isoDate y m d) = m - 1"
proof -
  let ?t = "LocalTime z (isoDate y m d)"
  have t: "?t = MakeDay y (m - 1) d * msPerDay + z"
    by (simp add: LocalTime_def isoDate_def MakeDate_def)
  have "MakeDay y (m - 1) d - 1 \<le> Day ?t \<and> Day ?t \<le> MakeDay y (m - 1) d"
    unfolding t by (rule Day_near [OF z])
  then have "MakeDay y (m - 1) 1 \<le> Day ?t" "Day ?t \<le> MakeDay y (m - 1) 28"
    using d MakeDay_date [of y "m - 1" d] MakeDay_date [of y "m - 1" 28] by simp_all
  then have "YearFromTime ?t = y \<and> MonthFromTime ?t = m - 1"
    using m by (intro month_of_day_range) simp_all
  then show ?thesis
    by (simp add: getFullYear_def getMonth_def)
qed

lemma monthKey_near_isoDate:
  assumes z: "\<bar>z\<bar> \<le> 50400000" and m: "1 \<le> m" "m \<le> 12" and d: "2 \<le> d" "d \<le> 28"
  shows "monthKey z (isoDate y m d) = String y @ ''-'' @ [digitChar (nat m div 10), digitChar (nat m mod 10)]"
  using fields_near_isoDate [OF assms, of y] by (simp add: monthKey_format)

lemma String_2025: "String 2025 = ''2025''"
  by (simp add: String_def digits.simps digitChar_def)

lemma scenario_keys:
  assumes z: "\<bar>z\<bar> \<le> 50400000"
  shows "monthKey z (isoDate 2025 9 10) = ''2025-09''"
    and "monthKey z (isoDate 2025 9 20) = ''2025-09''"
    and "monthKey z (isoDate 2025 10 5) = ''2025-10''"
    and "monthKey z (isoDate 2025 10 15) = ''2025-10''"
  using z by (simp_all add: monthKey_near_isoDate String_2025 digitChar_def)

lemma scenario_monthlyData:
  assumes z: "\<bar>z\<bar> \<le> 50400000"
  shows "monthlyData z
       [\<lparr>date = isoDate 2025 9 10, count = 5\<rparr>, \<lparr>date = isoDate 2025 9 20, count = 6\<rparr>,
        \<lparr>date = isoDate 2025 10 5, count = 8\<rparr>, \<lparr>date = isoDate 2025 10 15, count = 9\<rparr>]
     = [\<lparr>totalCount = 17, daysRecorded = 2, month = ''2025-10''\<rparr>,
        \<lparr>totalCount = 11, daysRecorded = 2, month = ''2025-09''\<rparr>]"
  by (simp add: monthlyData_def groupByMonth_def addEntry_def scenario_keys [OF z] toRow_def
      sort_cmp_def localeCompare_def)

text \<open>
  Relative to the month key, the aggregation is as intended: for each key that occurs among
  the fetched records, in descending order of the key, the row holding the sum of
  \<open>count\<close> over the records of that key and their number; a key without records has no
  row.  The key is the year, a hyphen and the two-digit month of the server's local
  calendar.  For the records 2025-09-10: 5, 2025-09-20: 6, 2025-10-05: 8 and 2025-10-15: 9
  the result is the row of 2025-10 (17 eggs, 2 days) followed by the row of 2025-09
  (11 eggs, 2 days), in every time zone (offsets up to 14 hours).
\<close>

lemma monthly_aggregation:
  "monthlyData tza es =
     map (monthRow tza es) (rev (sort (remdups (map (\<lambda>e. monthKey tza (date e)) es)))) \<and>
   monthKey tza t =
     String (getFullYear tza t) @ ''-'' @
       [digitChar (nat (getMonth tza t + 1) div 10), digitChar (nat (getMonth tza t + 1) mod 10)] \<and>
   (\<bar>tza\<bar> \<le> 50400000 \<longrightarrow>
    monthlyData tza
       [\<lparr>date = isoDate 2025 9 10, count = 5\<rparr>, \<lparr>date = isoDate 2025 9 20, count = 6\<rparr>,
        \<lparr>date = isoDate 2025 10 5, count = 8\<rparr>, \<lparr>date = isoDate 2025 10 15, count = 9\<rparr>]
     = [\<lparr>totalCount = 17, daysRecorded = 2, month = ''2025-10''\<rparr>,
        \<lparr>totalCount = 11, daysRecorded = 2, month = ''2025-09''\<rparr>])"
  using monthlyData_eq [of tza es] monthKey_format [of tza t] scenario_monthlyData [of tza]
  by blast

lemma monthly_aggregation_example:
  "monthlyData 0
       [\<lparr>date = isoDate 2025 9 10, count = 5\<rparr>, \<lparr>date = isoDate 2025 9 20, count = 6\<rparr>,
        \<lparr>date = isoDate 2025 10 5, count = 8\<rparr>, \<lparr>date = isoDate 2025 10 15, count = 9\<rparr>]
     = [\<lparr>totalCount = 17, daysRecorded = 2, month = ''2025-10''\<rparr>,
        \<lparr>totalCount = 11, daysRecorded = 2, month = ''2025-09''\<rparr>] \<and>
   isoDate 2025 9 10 = 1757462400000 \<and>
   monthKey 0 (isoDate 2025 9 10) = ''2025-09''"
proof -
  have z: "\<bar>0::int\<bar> \<le> 50400000" by simp
  have a: "monthlyData 0
       [\<lparr>date = isoDate 2025 9 10, count = 5\<rparr>, \<lparr>date = isoDate 2025 9 20, count = 6\<rparr>,
        \<lparr>date = isoDate 2025 10 5, count = 8\<rparr>, \<lparr>date = isoDate 2025 10 15, count = 9\<rparr>]
     = [\<lparr>totalCount = 17, daysRecorded = 2, month = ''2025-10''\<rparr>,
        \<lparr>totalCount = 11, daysRecorded = 2, month = ''2025-09''\<rparr>]"
    using z monthly_aggregation [of 0 "[]::entry list" 0] by blast
  have b: "isoDate 2025 9 10 = 1757462400000"
    by (simp add: isoDate_def MakeDate_def MakeDay_def DayFromYear_def DaysInYear_def
        DayFromMonth_def msPerDay_def)
  have c: "monthKey 0 (isoDate 2025 9 10) = ''2025-09''"
    by (rule scenario_keys) simp
  from a b c show ?thesis by (intro conjI)
qed

lemma foldl_plus:
  fixes f :: "'a \<Rightarrow> int"
  shows "foldl (\<lambda>sum m. sum + f m) a xs = a + sum_list (map f xs)"
  by (induction xs arbitrary: a) auto

lemma sum_update:
  fixes f :: "'v \<Rightarrow> int"
  shows "sum_list (map (\<lambda>p. f (snd p)) (AList.update k v al)) =
     sum_list (map (\<lambda>p. f (snd p)) al) + f v - (case map_of al k of None \<Rightarrow> 0 | Some d \<Rightarrow> f d)"
  by (induction al) auto

lemma sum_totalCount_addEntry:
  "sum_list (map (\<lambda>p. totalCount (snd p)) (addEntry tza m e)) =
     sum_list (map (\<lambda>p. totalCount (snd p)) m) + count e"
  by (simp add: addEntry_def Let_def sum_update split: option.split)

lemma sum_daysRecorded_addEntry:
  "sum_list (map (\<lambda>p. daysRecorded (snd p)) (addEntry tza m e)) =
     sum_list (map (\<lambda>p. daysRecorded (snd p)) m) + 1"
  by (simp add: addEntry_def Let_def sum_update split: option.split)

lemma sum_totalCount_groupByMonth:
  "sum_list (map (\<lambda>p. totalCount (snd p)) (groupByMonth tza es)) = sum_list (map count es)"
proof (induction es rule: rev_induct)
  case Nil
  then show ?case by (simp add: groupByMonth_def)
next
  case (snoc e es)
  then show ?case
    unfolding groupByMonth_snoc sum_totalCount_addEntry by simp
qed

lemma sum_daysRecorded_groupByMonth:
  "sum_list (map (\<lambda>p. daysRecorded (snd p)) (groupByMonth tza es)) = int (length es)"
proof (induction es rule: rev_induct)
  case Nil
  then show ?case by (simp add: groupByMonth_def)
next
  case (snoc e es)
  then show ?case
    unfolding groupByMonth_snoc sum_daysRecorded_addEntry by simp
qed

lemma totalCount_toRow: "totalCount (toRow p) = totalCount (snd p)"
  by (simp add: toRow_def)

lemma daysRecorded_toRow: "daysRecorded (toRow p) = daysRecorded (snd p)"
  by (simp add: toRow_def)

lemma daysRecorded_pos:
  assumes "r \<in> set (monthlyData tza es)"
  shows "1 \<le> daysRecorded r"
proof -
  have "month r \<in> set (map month (monthlyData tza es))"
    using assms by simp
  then have "month r \<in> (\<lambda>e. monthKey tza (date e)) ` set es"
    unfolding months_monthlyData by simp
  then have "groupOf tza es (month r) \<noteq> []"
    by (auto simp: groupOf_def filter_empty_conv)
  then have "1 \<le> int (length (groupOf tza es (month r)))"
    by (cases "groupOf tza es (month r)") simp_all
  moreover have "daysRecorded r = int (length (groupOf tza es (month r)))"
    using row_monthlyData [OF assms] by (metis monthRow_def select_convs(2) monthData.select_convs(2))
  ultimately show ?thesis by simp
qed

text \<open>
  Claim C10.  The rows of the monthly aggregation partition the fetched records: every
  row has at least one recorded day, the totals row of the table over the rows
  (\<open>totalDaysRecorded\<close>, \<open>totalEggs\<close>) is the number of fetched records and the sum of
  their counts.
\<close>

theorem aggregation_partitions:
  "totalEggs (monthlyData tza es) = sum_list (map count es) \<and>
   totalDaysRecorded (monthlyData tza es) = int (length es) \<and>
   list_all (\<lambda>r. 1 \<le> daysRecorded r) (monthlyData tza es)"
proof -
  have "sum_list (map totalCount (monthlyData tza es)) = sum_list (map count es)"
    unfolding monthlyData_alt sum_sort_cmp
    using sum_totalCount_groupByMonth [of tza es]
    by (simp add: comp_def totalCount_toRow)
  moreover have "sum_list (map daysRecorded (monthlyData tza es)) = int (length es)"
    unfolding monthlyData_alt sum_sort_cmp
    using sum_daysRecorded_groupByMonth [of tza es]
    by (simp add: comp_def daysRecorded_toRow)
  moreover have "list_all (\<lambda>r. 1 \<le> daysRecorded r) (monthlyData tza es)"
    unfolding list_all_iff using daysRecorded_pos by blast
  ultimately show ?thesis
    by (simp add: totalEggs_def totalDaysRecorded_def foldl_plus)
qed

section \<open>Properties of the validation\<close>

lemma count_issues_Finite:
  "issuesAt ''count'' (count_field rt (JNumber (Finite x))) =
     (if \<not> isInteger x then [wholeNumberIssue invalid_type False]
      else if \<not> isSafeInteger x then
        (if 0 < x then [wholeNumberIssue too_big True]
         else [wholeNumberIssue too_small True, CountNegative])
      else if x < 0 then [CountNegative]
      else [])"
  by (auto simp: count_field_def number_schema_def settle_def aborted_def int_check_def
      gte_check_def issuesAt_def wholeNumberIssue_def CountNegative_def isSafeInteger_def
      MAX_SAFE_INTEGER_def)

lemma count_field_accepts:
  "count_field rt c = Inr x \<longleftrightarrow> c = JNumber (Finite x) \<and> isSafeInteger x \<and> 0 \<le> x"
  by (auto simp: count_field_def number_schema_def settle_def aborted_def int_check_def
      gte_check_def isSafeInteger_def MAX_SAFE_INTEGER_def
      split: jsvalue.splits jsnumber.splits if_splits)

lemma date_issues_valid:
  "issuesAt ''date'' (date_field rt (JDate (Some t))) =
     (if t \<le> loaded rt then [] else [DateInFuture])"
  by (auto simp: date_field_def date_schema_def settle_def aborted_def lte_check_def
      issuesAt_def DateInFuture_def)

lemma date_field_accepts:
  "date_field rt d = Inr t \<longleftrightarrow> d = JDate (Some t) \<and> t \<le> loaded rt"
  by (auto simp: date_field_def date_schema_def settle_def aborted_def lte_check_def
      split: jsvalue.splits option.splits if_splits)

lemma schema_issues:
  "issuesOf (eggProductionSchema rt d c) =
     issuesAt ''date'' (date_field rt d) @ issuesAt ''count'' (count_field rt c)"
  by (auto simp: eggProductionSchema_def issuesOf_def issuesAt_def split: sum.splits)

lemma schema_accepts_fields:
  "eggProductionSchema rt d c = Inr data \<longleftrightarrow>
     (\<exists>t x. date_field rt d = Inr t \<and> count_field rt c = Inr x \<and>
        data = \<lparr>date = t, count = \<lfloor>x\<rfloor>\<rparr>)"
  by (auto simp: eggProductionSchema_def split: sum.splits)

lemma schema_accepts:
  "eggProductionSchema rt d c = Inr data \<longleftrightarrow>
     (\<exists>t x. d = JDate (Some t) \<and> t \<le> loaded rt \<and> c = JNumber (Finite x) \<and>
        isSafeInteger x \<and> 0 \<le> x \<and> data = \<lparr>date = t, count = \<lfloor>x\<rfloor>\<rparr>)"
  unfolding schema_accepts_fields date_field_accepts count_field_accepts by blast

lemma path_issuesAt: "list_all (\<lambda>i. hd (path i) = key) (issuesAt key r)"
  by (auto simp: issuesAt_def list_all_iff split: sum.splits)

lemmas isoDate_eval = isoDate_def MakeDate_def MakeDay_def DayFromYear_def DaysInYear_def
        DayFromMonth_def msPerDay_def

lemma not_DateInFuture_count: "DateInFuture \<notin> set (issuesAt ''count'' r)"
  using path_issuesAt [of "''count''" r]
  by (auto simp: list_all_iff DateInFuture_def)

lemma DateInFuture_iff:
  "DateInFuture \<in> set (issuesOf (eggProductionSchema rt (JDate (Some t)) c)) \<longleftrightarrow> loaded rt < t"
  by (simp add: schema_issues date_issues_valid not_DateInFuture_count)

text \<open>
  Claim C4 (the code departs from it).  The schema reports "Date cannot be in the future"
  exactly when the date is after the instant at which the schema's module was evaluated,
  not after the time of the validation: on the example server, on 2025-11-19 at 12:00, an
  entry dated 2025-11-18 (the day before) with count 5 is rejected as being in the future.
\<close>

theorem future_check_uses_load_time:
  "(DateInFuture \<in> set (issuesOf (eggProductionSchema rt (JDate (Some t)) c)) \<longleftrightarrow> loaded rt < t) \<and>
   loaded server0 < isoDate 2025 11 18 \<and>
   isoDate 2025 11 18 \<le> isoDate 2025 11 19 + 43200000 \<and>
   eggProductionSchema server0 (JDate (Some (isoDate 2025 11 18))) (JNumber (Finite 5)) =
     Inl [DateInFuture]"
proof -
  have "eggProductionSchema server0 (JDate (Some (isoDate 2025 11 18))) (JNumber (Finite 5)) =
     Inl [DateInFuture]"
    by (simp add: eggProductionSchema_def date_field_def date_schema_def settle_def aborted_def lte_check_def
      issuesAt_def DateInFuture_def count_field_def number_schema_def int_check_def gte_check_def
      isInteger_def isSafeInteger_def MAX_SAFE_INTEGER_def server0_def isoDate_eval)
  moreover have "loaded server0 < isoDate 2025 11 18" "isoDate 2025 11 18 \<le> isoDate 2025 11 19 + 43200000"
    by (simp_all add: server0_def isoDate_eval)
  ultimately show ?thesis
    using DateInFuture_iff [of rt t c] by blast
qed

lemmas schema_eval = eggProductionSchema_def date_field_def date_schema_def settle_def aborted_def
  lte_check_def issuesAt_def issuesOf_def DateInFuture_def CountNegative_def count_field_def
  number_schema_def int_check_def gte_check_def isInteger_def isSafeInteger_def
  MAX_SAFE_INTEGER_def

text \<open>
  Claim C5 (the code departs from it).  The form validates with the very schema of the
  server, so in one process both give the same result on every input; but the browser and
  the server each evaluated the module at their own instant, and an entry dated between
  the two is accepted by the form and rejected by the server.
\<close>

theorem parity_breaks_between_load_times:
  "clientFormSchema rt d c = eggProductionSchema rt d c \<and>
   clientFormSchema client0 (JDate (Some (isoDate 2025 11 18))) (JNumber (Finite 5)) =
     Inr \<lparr>date = isoDate 2025 11 18, count = 5\<rparr> \<and>
   eggProductionSchema server0 (JDate (Some (isoDate 2025 11 18))) (JNumber (Finite 5)) =
     Inl [DateInFuture]"
  by (simp add: clientFormSchema_def schema_eval server0_def client0_def isoDate_eval)

lemma CountNotInteger_whole: "CountNotInteger (wholeNumberIssue c k)"
  by (simp add: CountNotInteger_def wholeNumberIssue_def)

lemma not_CountNotInteger_CountNegative: "\<not> CountNotInteger CountNegative"
  by (simp add: CountNotInteger_def CountNegative_def)

lemma CountNegative_not_whole: "CountNegative \<noteq> wholeNumberIssue c k"
  by (simp add: CountNegative_def wholeNumberIssue_def)

lemma date_issue_not_count:
  "i \<in> set (issuesAt ''date'' r) \<Longrightarrow> \<not> CountNotInteger i \<and> i \<noteq> CountNegative"
  using path_issuesAt [of "''date''" r]
  by (auto simp: list_all_iff CountNotInteger_def CountNegative_def)

lemma CountNotInteger_iff:
  "list_ex CountNotInteger (issuesOf (eggProductionSchema rt d (JNumber (Finite x)))) \<longleftrightarrow>
     \<not> isSafeInteger x"
proof -
  have "\<not> list_ex CountNotInteger (issuesAt ''date'' (date_field rt d))"
    using date_issue_not_count [of _ "date_field rt d"] by (auto simp: list_ex_iff)
  then show ?thesis
    by (simp add: schema_issues count_issues_Finite CountNotInteger_whole
        not_CountNotInteger_CountNegative isSafeInteger_def)
qed

lemma CountNegative_iff:
  "CountNegative \<in> set (issuesOf (eggProductionSchema rt d (JNumber (Finite x)))) \<longleftrightarrow>
     isInteger x \<and> x < 0"
proof -
  have "CountNegative \<notin> set (issuesAt ''date'' (date_field rt d))"
    using date_issue_not_count [of CountNegative "date_field rt d"] by blast
  then show ?thesis
    by (auto simp: schema_issues count_issues_Finite CountNegative_not_whole
        isSafeInteger_def MAX_SAFE_INTEGER_def)
qed

text \<open>
  Claim C7, as amended.  For a finite numeric count, whatever the date: "Count must be a
  whole number" is reported exactly when the count is not an integer or lies outside the
  safe-integer range (magnitude above 2^53 - 1); "Count cannot be negative" is reported
  exactly when the count is a negative integer (a negative count that is not an integer
  is reported as not whole only); the count is accepted exactly when it is an integer
  from 0 to 2^53 - 1; and 0.1, 0.5, 1.5, 10.1 and 100.99 are each reported as not whole.
\<close>

theorem count_rules:
  "(list_ex CountNotInteger (issuesOf (eggProductionSchema rt d (JNumber (Finite x)))) \<longleftrightarrow>
      \<not> isSafeInteger x) \<and>
   (CountNegative \<in> set (issuesOf (eggProductionSchema rt d (JNumber (Finite x)))) \<longleftrightarrow>
      isInteger x \<and> x < 0) \<and>
   (count_field rt (JNumber (Finite x)) = Inr x \<longleftrightarrow> isSafeInteger x \<and> 0 \<le> x) \<and>
   isSafeInteger x = (isInteger x \<and> \<bar>x\<bar> \<le> 9007199254740991) \<and>
   list_all (\<lambda>y. list_ex CountNotInteger (issuesOf (eggProductionSchema rt d (JNumber (Finite y)))))
     [0.1, 0.5, 1.5, 10.1, 100.99]"
proof -
  have "\<not> isInteger 0.1" "\<not> isInteger 0.5" "\<not> isInteger 1.5" "\<not> isInteger 10.1"
    "\<not> isInteger 100.99"
    unfolding isInteger_def by simp_all
  then have "list_all (\<lambda>y. \<not> isSafeInteger y) [0.1, 0.5, 1.5, 10.1, 100.99]"
    by (simp add: isSafeInteger_def)
  then show ?thesis
    unfolding CountNotInteger_iff CountNegative_iff count_field_accepts
    by (simp add: isSafeInteger_def MAX_SAFE_INTEGER_def)
qed

text \<open>
  Claim C7 as stated fails: 9007199254740992 is a non-negative integer and is rejected
  with "Count must be a whole number"; -1.5 is below zero and "Count cannot be negative"
  is not reported for it.
\<close>

theorem count_rules_counterexample:
  "isInteger 9007199254740992 \<and> (0::real) \<le> 9007199254740992 \<and>
   eggProductionSchema server0 (JDate (Some (isoDate 2025 11 15))) (JNumber (Finite 9007199254740992)) =
     Inl [wholeNumberIssue too_big True] \<and>
   (- 1.5 :: real) < 0 \<and>
   eggProductionSchema server0 (JDate (Some (isoDate 2025 11 15))) (JNumber (Finite (- 1.5))) =
     Inl [wholeNumberIssue invalid_type False]"
  by (simp add: schema_eval wholeNumberIssue_def server0_def isoDate_eval)

lemma path_date_issues: "list_all (\<lambda>i. path i = [''date'']) (issuesAt ''date'' (date_field rt d))"
  by (auto simp: date_field_def date_schema_def settle_def aborted_def lte_check_def
      issuesAt_def split: jsvalue.splits option.splits)

lemma path_count_issues: "list_all (\<lambda>i. path i = [''count'']) (issuesAt ''count'' (count_field rt c))"
  by (auto simp: count_field_def number_schema_def settle_def aborted_def int_check_def
      gte_check_def issuesAt_def split: jsvalue.splits jsnumber.splits)

text \<open>
  Claim C8, as amended.  The issues of an input are the issues of the date followed by
  the issues of the count, each under the path of its field, so violations on the two
  fields are always reported together.  Within the count the checks stop at a count
  that is not an integer: for a date and a finite number the result is the date's
  violation, if any, followed by the whole-number violation alone for a non-integer, and
  otherwise by the violations of the safe range and of non-negativity.
\<close>

theorem violations_collected_per_field:
  "issuesOf (eggProductionSchema rt d c) =
     issuesAt ''date'' (date_field rt d) @ issuesAt ''count'' (count_field rt c) \<and>
   list_all (\<lambda>i. path i = [''date'']) (issuesAt ''date'' (date_field rt d)) \<and>
   list_all (\<lambda>i. path i = [''count'']) (issuesAt ''count'' (count_field rt c)) \<and>
   issuesOf (eggProductionSchema rt (JDate (Some t)) (JNumber (Finite x))) =
     (if t \<le> loaded rt then [] else [DateInFuture]) @
     (if \<not> isInteger x then [wholeNumberIssue invalid_type False]
      else if \<not> isSafeInteger x then
        (if 0 < x then [wholeNumberIssue too_big True]
         else [wholeNumberIssue too_small True, CountNegative])
      else if x < 0 then [CountNegative]
      else [])"
  using schema_issues [of rt d c] path_date_issues [of rt d] path_count_issues [of rt c]
    schema_issues [of rt "JDate (Some t)" "JNumber (Finite x)"]
    date_issues_valid [of rt t] count_issues_Finite [of rt x]
  by simp

text \<open>
  Claim C8 as stated fails: with a valid date, the count -1.5 violates the whole-number
  rule and the non-negativity rule, and only the first violation is returned.
\<close>

theorem violations_collected_counterexample:
  "\<not> isInteger (- 1.5) \<and> (- 1.5 :: real) < 0 \<and>
   isoDate 2025 11 15 \<le> loaded server0 \<and>
   issuesOf (eggProductionSchema server0 (JDate (Some (isoDate 2025 11 15))) (JNumber (Finite (- 1.5)))) =
     [wholeNumberIssue invalid_type False]"
  by (simp add: schema_eval wholeNumberIssue_def server0_def isoDate_eval)

section \<open>Properties of the routes\<close>

lemma validated_Json:
  "validated rt (Json d c) =
     (case eggProductionSchema rt (dateValue rt d) c of
        Inl issues \<Rightarrow> Inl (ZodError issues)
      | Inr data \<Rightarrow> Inr data)"
  by (simp add: validated_def)

lemma create_duplicate:
  "hasEntry d uid (date data) \<Longrightarrow> create d uid data now = Inl UniqueConstraintFailed"
  by (simp add: create_def hasEntry_def)

lemma create_fresh:
  "\<not> hasEntry d uid (date data) \<Longrightarrow>
     create d uid data now =
       Inr (newEntry d uid data now,
            d\<lparr>rows := rows d @ [newEntry d uid data now], issued := Suc (issued d)\<rparr>)"
  by (simp add: create_def hasEntry_def newEntry_def Let_def)

lemma POST_valid:
  assumes "uid \<noteq> []" and "eggProductionSchema rt (dateValue rt d) c = Inr data"
  shows "POST rt now (Some uid) (Json d c) db0 =
     (if hasEntry db0 uid (date data) then (duplicateOnCreate, db0)
      else ((201, EntryBody (newEntry db0 uid data now)),
            db0\<lparr>rows := rows db0 @ [newEntry db0 uid data now], issued := Suc (issued db0)\<rparr>))"
  using assms
  by (simp add: POST_def validated_Json create_duplicate create_fresh catch_def)



lemmas route_eval = POST_def validated_def dateValue_def catch_def create_def formatZodError_def
  messageMap_def duplicateOnCreate_def unauthorized_def parseIsoDate_def digitVal_def
  dbDate_def Day_def cuid_def


lemma dbDate_isoDate: "dbDate (isoDate y m d) = isoDate y m d"
  by (simp add: dbDate_def isoDate_def MakeDate_def Day_def msPerDay_def)


text \<open>
  Validation comes before the insert: an input that it refuses is answered with the
  validation error whether or not the owner has a record for the date.
\<close>

lemma invalid_create_reports_validation:
  "hasEntry db1 ''u1'' (isoDate 2025 11 10) \<and>
   POST server0 (isoDate 2025 11 17 + 36000001) (Some ''u1'')
       (Json (JString ''2025-11-10'') (JNumber (Finite (- 1)))) db1 =
     ((400, ErrorDetails ''Validation failed''
        [Detail ''count'' ''Egg count cannot be negative. It must be 0 or greater.'']), db1)"
  by (simp add: hasEntry_def db1_def entryA_def dbDate_isoDate route_eval schema_eval server0_def
      isoDate_eval)







subsection \<open>The window of the monthly aggregation\<close>

lemma DayWithinYear_range:
  "0 \<le> DayWithinYear t \<and> DayWithinYear t < DaysInYear (YearFromTime t)"
  using YearFromDay_bounds [of "Day t"] DayFromYear_Suc [of "YearFromDay (Day t)"]
  by (simp add: DayWithinYear_def YearFromTime_def)

lemma DateFromTime_ge1: "1 \<le> DateFromTime t"
  using DayWithinYear_range [of t]
  by (simp add: DateFromTime_def MonthFromTime_def InLeapYear_def Let_def)

lemma MakeDay_norm: "MakeDay y m dt = MakeDay (y + m div 12) (m mod 12) dt"
  by (simp add: MakeDay_def Let_def)

lemma Local_UTC: "LocalTime z (UTC z t) = t"
  by (simp add: LocalTime_def UTC_def)

lemma sixMonthsAgo_local:
  fixes rt now
  defines "z \<equiv> localTZA rt"
  defines "y' \<equiv> getFullYear z now + (getMonth z now - 6) div 12"
  defines "m' \<equiv> (getMonth z now - 6) mod 12"
  assumes d28: "getDate z now \<le> 28"
  shows "LocalTime z (sixMonthsAgo rt now) =
           MakeDate (MakeDay y' m' 1) (TimeWithinDay (LocalTime z now))"
proof -
  let ?lt = "LocalTime z now"
  let ?tm = "TimeWithinDay ?lt"
  have tm: "0 \<le> ?tm" "?tm < msPerDay"
    using TimeWithinDay_range [of ?lt] by simp_all
  have m': "0 \<le> m'" "m' \<le> 11"
    by (simp_all add: m'_def)
  have dt: "1 \<le> DateFromTime ?lt" "DateFromTime ?lt \<le> 28"
    using DateFromTime_ge1 [of ?lt] d28 by (simp_all add: getDate_def)
  have one: "(1::int) \<le> 1" "(1::int) \<le> 28" by simp_all
  let ?t1 = "MakeDate (MakeDay y' m' (DateFromTime ?lt)) ?tm"
  have s1: "LocalTime z (setMonth z now (getMonth z now - 6)) = ?t1"
    unfolding setMonth_def Let_def Local_UTC
    using MakeDay_norm [of "YearFromTime ?lt" "MonthFromTime ?lt - 6" "DateFromTime ?lt"]
    by (simp add: y'_def m'_def getFullYear_def getMonth_def)
  have f1: "YearFromTime ?t1 = y' \<and> MonthFromTime ?t1 = m' \<and> TimeWithinDay ?t1 = ?tm"
    using fields_of_MakeDay [OF m' dt tm, of y'] by simp
  show ?thesis
    unfolding sixMonthsAgo_def Let_def z_def [symmetric]
    unfolding setDate_def Let_def Local_UTC s1
    using f1 by simp
qed

lemma sixMonthsAgo_fields:
  fixes rt now
  defines "z \<equiv> localTZA rt"
  assumes d28: "getDate z now \<le> 28"
  shows "getFullYear z (sixMonthsAgo rt now) = getFullYear z now + (getMonth z now - 6) div 12 \<and>
         getMonth z (sixMonthsAgo rt now) = (getMonth z now - 6) mod 12 \<and>
         getDate z (sixMonthsAgo rt now) = 1 \<and>
         TimeWithinDay (LocalTime z (sixMonthsAgo rt now)) = TimeWithinDay (LocalTime z now)"
proof -
  let ?tm = "TimeWithinDay (LocalTime z now)"
  have tm: "0 \<le> ?tm" "?tm < msPerDay"
    using TimeWithinDay_range [of "LocalTime z now"] by simp_all
  have m': "0 \<le> (getMonth z now - 6) mod 12" "(getMonth z now - 6) mod 12 \<le> 11"
    by simp_all
  have one: "(1::int) \<le> 1" "(1::int) \<le> 28" by simp_all
  show ?thesis
    unfolding getFullYear_def getMonth_def getDate_def
    unfolding sixMonthsAgo_local [OF d28 [unfolded z_def], folded z_def]
    using fields_of_MakeDay [OF m' one tm, of "getFullYear z now + (getMonth z now - 6) div 12"]
    by (simp add: getFullYear_def getMonth_def)
qed

lemma sixMonthsAgo_day_utc:
  assumes "localTZA rt = 0" and d28: "getDate 0 now \<le> 28"
  shows "dbDate (sixMonthsAgo rt now) =
           MakeDate (MakeDay (getFullYear 0 now + (getMonth 0 now - 6) div 12)
                       ((getMonth 0 now - 6) mod 12) 1) 0"
proof -
  have d: "getDate (localTZA rt) now \<le> 28" using assms by simp
  have "sixMonthsAgo rt now =
      MakeDate (MakeDay (getFullYear 0 now + (getMonth 0 now - 6) div 12)
                       ((getMonth 0 now - 6) mod 12) 1) (TimeWithinDay (LocalTime 0 now))"
    using sixMonthsAgo_local [OF d] assms(1) by (simp add: LocalTime_def)
  then show ?thesis
    using Day_MakeDate [of "TimeWithinDay (LocalTime 0 now)"] TimeWithinDay_range [of "LocalTime 0 now"]
    by (simp add: dbDate_def MakeDate_def)
qed

lemma fields_isoDate:
  assumes "1 \<le> m" "m \<le> 12" "1 \<le> d" "d \<le> 28" "0 \<le> tm" "tm < msPerDay"
  shows "getFullYear 0 (isoDate y m d + tm) = y \<and> getMonth 0 (isoDate y m d + tm) = m - 1 \<and>
         getDate 0 (isoDate y m d + tm) = d \<and> TimeWithinDay (isoDate y m d + tm) = tm"
proof -
  have "isoDate y m d + tm = MakeDate (MakeDay y (m - 1) d) tm"
    by (simp add: isoDate_def MakeDate_def)
  then show ?thesis
    using fields_of_MakeDay [of "m - 1" d tm y] assms
    by (simp add: getFullYear_def getMonth_def getDate_def LocalTime_def)
qed

lemma window_now_example:
  "getFullYear 0 (isoDate 2024 9 15 + 43200000) = 2024 \<and>
   getMonth 0 (isoDate 2024 9 15 + 43200000) = 8 \<and>
   getDate 0 (isoDate 2024 9 15 + 43200000) = 15 \<and>
   TimeWithinDay (isoDate 2024 9 15 + 43200000) = 43200000"
  using fields_isoDate [of 9 15 43200000 2024] by (simp add: msPerDay_def)

lemma window_start_example:
  "sixMonthsAgo server0 (isoDate 2024 9 15 + 43200000) = isoDate 2024 3 1 + 43200000"
proof -
  have z: "localTZA server0 = 0" by (simp add: server0_def)
  have "getDate (localTZA server0) (isoDate 2024 9 15 + 43200000) \<le> 28"
    using window_now_example by (simp add: z)
  from sixMonthsAgo_local [OF this] show ?thesis
    using window_now_example by (simp add: z LocalTime_def isoDate_def MakeDate_def)
qed

text \<open>
  On the 29th to the 31st the month six months back may have no such day: \<open>setMonth\<close> then
  carries into the following month, and the window starts a month late.  On 2024-08-31
  it starts on 2024-03-01, not on 2024-02-01.
\<close>

lemma YearFromTime_in:
  "DayFromYear y \<le> Day t \<and> Day t < DayFromYear (y + 1) \<Longrightarrow> YearFromTime t = y"
  unfolding YearFromTime_def by (rule YearFromDay_unique) simp_all

lemmas fields_eval = MonthFromTime_def DateFromTime_def DayWithinYear_def InLeapYear_def
  TimeWithinDay_def Day_def DayFromYear_def DaysInYear_def msPerDay_def Let_def

lemma window_start_overflow:
  "sixMonthsAgo server0 (isoDate 2024 8 31 + 43200000) = isoDate 2024 3 1 + 43200000"
proof -
  have n: "isoDate 2024 8 31 + 43200000 = 1725105600000"
    by (simp add: isoDate_eval)
  have y0: "YearFromTime 1725105600000 = 2024"
    by (rule YearFromTime_in) (simp add: Day_def DayFromYear_def msPerDay_def)
  have f0: "MonthFromTime 1725105600000 = 7" "DateFromTime 1725105600000 = 31"
    "TimeWithinDay 1725105600000 = 43200000"
    by (simp_all add: fields_eval y0)
  have t1: "setMonth 0 1725105600000 (7 - 6) = 1709380800000"
    by (simp add: setMonth_def LocalTime_def UTC_def y0 f0 isoDate_eval)
  have y1: "YearFromTime 1709380800000 = 2024"
    by (rule YearFromTime_in) (simp add: Day_def DayFromYear_def msPerDay_def)
  have f1: "MonthFromTime 1709380800000 = 2" "DateFromTime 1709380800000 = 2"
    "TimeWithinDay 1709380800000 = 43200000"
    by (simp_all add: fields_eval y1)
  have t2: "setDate 0 1709380800000 1 = 1709294400000"
    by (simp add: setDate_def LocalTime_def UTC_def y1 f1 isoDate_eval)
  have "sixMonthsAgo server0 1725105600000 = 1709294400000"
    by (simp add: sixMonthsAgo_def server0_def getMonth_def LocalTime_def f0 t1 [simplified] t2)
  then show ?thesis
    by (simp add: n isoDate_eval)
qed

lemma windowRow_fields:
  "date (windowRow n m d c) = isoDate 2024 m d"
  "count (windowRow n m d c) = c"
  "userId (windowRow n m d c) = ''u2''"
  "entry.truncate (windowRow n m d c) = \<lparr>date = isoDate 2024 m d, count = c\<rparr>"
  by (simp_all add: windowRow_def entry.defs)

lemma String_2024: "String 2024 = ''2024''"
  by (simp add: String_def digits.simps digitChar_def)

lemma window_keys:
  "monthKey 0 (isoDate 2024 3 15) = ''2024-03''"
  "monthKey 0 (isoDate 2024 4 15) = ''2024-04''"
  "monthKey 0 (isoDate 2024 5 15) = ''2024-05''"
  "monthKey 0 (isoDate 2024 6 15) = ''2024-06''"
  "monthKey 0 (isoDate 2024 7 15) = ''2024-07''"
  "monthKey 0 (isoDate 2024 8 15) = ''2024-08''"
  "monthKey 0 (isoDate 2024 9 10) = ''2024-09''"
  by (simp_all add: monthKey_near_isoDate String_2024 digitChar_def)

lemma window_day: "dbDate (isoDate 2024 3 1 + 43200000) = isoDate 2024 3 1"
  by (simp add: dbDate_def Day_def isoDate_eval)

lemma window_fetched:
  "[r \<leftarrow> rows dbWindow. userId r = ''u2'' \<and>
        dbDate (sixMonthsAgo server0 (isoDate 2024 9 15 + 43200000)) \<le> date r] =
     [windowRow 2 3 15 30, windowRow 3 4 15 25, windowRow 4 5 15 20, windowRow 5 6 15 15,
      windowRow 6 7 15 10, windowRow 7 8 15 5]"
  unfolding window_start_example window_day
  by (simp add: dbWindow_def windowRow_fields isoDate_eval)

lemma window_fetched9:
  "[r \<leftarrow> rows dbWindow9. userId r = ''u2'' \<and>
        dbDate (sixMonthsAgo server0 (isoDate 2024 9 15 + 43200000)) \<le> date r] =
     [windowRow 2 3 15 30, windowRow 3 4 15 25, windowRow 4 5 15 20, windowRow 5 6 15 15,
      windowRow 6 7 15 10, windowRow 7 8 15 5, windowRow 8 9 10 1]"
  unfolding window_start_example window_day
  by (simp add: dbWindow9_def dbWindow_def windowRow_fields isoDate_eval)

lemma window_ordered:
  "orderByDateAsc
     [windowRow 2 3 15 30, windowRow 3 4 15 25, windowRow 4 5 15 20, windowRow 5 6 15 15,
      windowRow 6 7 15 10, windowRow 7 8 15 5] =
     [windowRow 2 3 15 30, windowRow 3 4 15 25, windowRow 4 5 15 20, windowRow 5 6 15 15,
      windowRow 6 7 15 10, windowRow 7 8 15 5]"
  by (simp add: orderByDateAsc_def windowRow_fields isoDate_eval)

lemma window_ordered9:
  "orderByDateAsc
     [windowRow 2 3 15 30, windowRow 3 4 15 25, windowRow 4 5 15 20, windowRow 5 6 15 15,
      windowRow 6 7 15 10, windowRow 7 8 15 5, windowRow 8 9 10 1] =
     [windowRow 2 3 15 30, windowRow 3 4 15 25, windowRow 4 5 15 20, windowRow 5 6 15 15,
      windowRow 6 7 15 10, windowRow 7 8 15 5, windowRow 8 9 10 1]"
  by (simp add: orderByDateAsc_def windowRow_fields isoDate_eval)

lemmas monthly_eval = monthlyData_def groupByMonth_def addEntry_def toRow_def sort_cmp_def
  localeCompare_def

lemma GET_monthly_fetch:
  assumes "uid \<noteq> []"
  shows "GET_monthly rt now (Some uid) d0 =
     (200, MonthlyBody (monthlyData (localTZA rt)
        (map entry.truncate
           (orderByDateAsc
              [r \<leftarrow> rows d0. userId r = uid \<and> dbDate (sixMonthsAgo rt now) \<le> date r]))))"
  using assms by (simp add: GET_monthly_def findMany_def inRange_def Let_def)

lemma window_response:
  "GET_monthly server0 (isoDate 2024 9 15 + 43200000) (Some ''u2'') dbWindow =
     (200, MonthlyBody
        [\<lparr>totalCount = 5, daysRecorded = 1, month = ''2024-08''\<rparr>,
         \<lparr>totalCount = 10, daysRecorded = 1, month = ''2024-07''\<rparr>,
         \<lparr>totalCount = 15, daysRecorded = 1, month = ''2024-06''\<rparr>,
         \<lparr>totalCount = 20, daysRecorded = 1, month = ''2024-05''\<rparr>,
         \<lparr>totalCount = 25, daysRecorded = 1, month = ''2024-04''\<rparr>,
         \<lparr>totalCount = 30, daysRecorded = 1, month = ''2024-03''\<rparr>])"
proof -
  have z: "localTZA server0 = 0" by (simp add: server0_def)
  show ?thesis
    unfolding GET_monthly_fetch [of "''u2''", simplified] window_fetched window_ordered z
    by (simp add: windowRow_fields monthly_eval window_keys)
qed

text \<open>
  Claim C2, as amended.  The monthly route aggregates exactly the owner's records whose
  date is on or after the calendar day (UTC) of the window start.  When the current day
  of the month is at most 28, the window start is, in the server's local time, the first
  day of the calendar month six months before the current month, at the current time of
  day; on a server whose local time is UTC this is that first day itself, so a record dated
  on it is included.  The window therefore covers the current month and the six months
  before it.  With the window start 2024-03-01 (the route called on 2024-09-15) and the
  entries of 2024-01-15 to 2024-08-15 with counts 40, 35, 30, 25, 20, 15, 10, 5, exactly
  the six entries of March to August are fetched, their counts sum to 105, and January
  and February are left out.
\<close>

theorem monthly_window:
  assumes uid: "uid \<noteq> []"
  shows
    "GET_monthly rt now (Some uid) d0 =
       (200, MonthlyBody (monthlyData (localTZA rt)
          (map entry.truncate
             (orderByDateAsc
                [r \<leftarrow> rows d0. userId r = uid \<and> dbDate (sixMonthsAgo rt now) \<le> date r])))) \<and>
     (getDate (localTZA rt) now \<le> 28 \<longrightarrow>
        getFullYear (localTZA rt) (sixMonthsAgo rt now) =
          getFullYear (localTZA rt) now + (getMonth (localTZA rt) now - 6) div 12 \<and>
        getMonth (localTZA rt) (sixMonthsAgo rt now) = (getMonth (localTZA rt) now - 6) mod 12 \<and>
        getDate (localTZA rt) (sixMonthsAgo rt now) = 1 \<and>
        TimeWithinDay (LocalTime (localTZA rt) (sixMonthsAgo rt now)) =
          TimeWithinDay (LocalTime (localTZA rt) now)) \<and>
     (localTZA rt = 0 \<and> getDate 0 now \<le> 28 \<longrightarrow>
        dbDate (sixMonthsAgo rt now) =
          isoDate (getFullYear 0 now + (getMonth 0 now - 6) div 12)
            ((getMonth 0 now - 6) mod 12 + 1) 1) \<and>
     sixMonthsAgo server0 (isoDate 2024 9 15 + 43200000) = isoDate 2024 3 1 + 43200000 \<and>
     dbDate (sixMonthsAgo server0 (isoDate 2024 9 15 + 43200000)) = isoDate 2024 3 1 \<and>
     [r \<leftarrow> rows dbWindow. userId r = ''u2'' \<and>
          dbDate (sixMonthsAgo server0 (isoDate 2024 9 15 + 43200000)) \<le> date r] =
       [windowRow 2 3 15 30, windowRow 3 4 15 25, windowRow 4 5 15 20, windowRow 5 6 15 15,
        windowRow 6 7 15 10, windowRow 7 8 15 5] \<and>
     sum_list (map count
       [windowRow 2 3 15 30, windowRow 3 4 15 25, windowRow 4 5 15 20, windowRow 5 6 15 15,
        windowRow 6 7 15 10, windowRow 7 8 15 5]) = 105 \<and>
     GET_monthly server0 (isoDate 2024 9 15 + 43200000) (Some ''u2'') dbWindow =
       (200, MonthlyBody
          [\<lparr>totalCount = 5, daysRecorded = 1, month = ''2024-08''\<rparr>,
           \<lparr>totalCount = 10, daysRecorded = 1, month = ''2024-07''\<rparr>,
           \<lparr>totalCount = 15, daysRecorded = 1, month = ''2024-06''\<rparr>,
           \<lparr>totalCount = 20, daysRecorded = 1, month = ''2024-05''\<rparr>,
           \<lparr>totalCount = 25, daysRecorded = 1, month = ''2024-04''\<rparr>,
           \<lparr>totalCount = 30, daysRecorded = 1, month = ''2024-03''\<rparr>])"
proof -
  have a: "localTZA rt = 0 \<and> getDate 0 now \<le> 28 \<longrightarrow>
        dbDate (sixMonthsAgo rt now) =
          isoDate (getFullYear 0 now + (getMonth 0 now - 6) div 12)
            ((getMonth 0 now - 6) mod 12 + 1) 1"
    using sixMonthsAgo_day_utc [of rt now] by (simp add: isoDate_def)
  have b: "getDate (localTZA rt) now \<le> 28 \<longrightarrow>
        getFullYear (localTZA rt) (sixMonthsAgo rt now) =
          getFullYear (localTZA rt) now + (getMonth (localTZA rt) now - 6) div 12 \<and>
        getMonth (localTZA rt) (sixMonthsAgo rt now) = (getMonth (localTZA rt) now - 6) mod 12 \<and>
        getDate (localTZA rt) (sixMonthsAgo rt now) = 1 \<and>
        TimeWithinDay (LocalTime (localTZA rt) (sixMonthsAgo rt now)) =
          TimeWithinDay (LocalTime (localTZA rt) now)"
    using sixMonthsAgo_fields [of rt now] by blast
  have c: "dbDate (sixMonthsAgo server0 (isoDate 2024 9 15 + 43200000)) = isoDate 2024 3 1"
    unfolding window_start_example by (rule window_day)
  have d: "sum_list (map count
       [windowRow 2 3 15 30, windowRow 3 4 15 25, windowRow 4 5 15 20, windowRow 5 6 15 15,
        windowRow 6 7 15 10, windowRow 7 8 15 5]) = 105"
    by (simp add: windowRow_fields)
  from GET_monthly_fetch [OF uid, of rt now d0] b a window_start_example c window_fetched d
    window_response
  show ?thesis by (intro conjI)
qed

theorem monthly_window_witness:
  "getFullYear 0 (sixMonthsAgo server0 (isoDate 2024 9 15 + 43200000)) = 2024 \<and>
   getMonth 0 (sixMonthsAgo server0 (isoDate 2024 9 15 + 43200000)) = 2 \<and>
   getDate 0 (sixMonthsAgo server0 (isoDate 2024 9 15 + 43200000)) = 1 \<and>
   dbDate (sixMonthsAgo server0 (isoDate 2024 9 15 + 43200000)) = isoDate 2024 3 1 \<and>
   fst (GET_monthly server0 (isoDate 2024 9 15 + 43200000) (Some ''u2'') dbWindow) = 200"
proof -
  have u: "''u2'' \<noteq> []" by simp
  have z: "localTZA server0 = 0" by (simp add: server0_def)
  have d: "getDate (localTZA server0) (isoDate 2024 9 15 + 43200000) \<le> 28"
    using window_now_example by (simp add: z)
  note w = monthly_window [OF u, of server0 "isoDate 2024 9 15 + 43200000" dbWindow]
  have f: "getFullYear (localTZA server0) (sixMonthsAgo server0 (isoDate 2024 9 15 + 43200000)) =
          getFullYear (localTZA server0) (isoDate 2024 9 15 + 43200000) +
            (getMonth (localTZA server0) (isoDate 2024 9 15 + 43200000) - 6) div 12 \<and>
        getMonth (localTZA server0) (sixMonthsAgo server0 (isoDate 2024 9 15 + 43200000)) =
          (getMonth (localTZA server0) (isoDate 2024 9 15 + 43200000) - 6) mod 12 \<and>
        getDate (localTZA server0) (sixMonthsAgo server0 (isoDate 2024 9 15 + 43200000)) = 1"
    using w d by blast
  have "getFullYear 0 (sixMonthsAgo server0 (isoDate 2024 9 15 + 43200000)) = 2024"
    "getMonth 0 (sixMonthsAgo server0 (isoDate 2024 9 15 + 43200000)) = 2"
    "getDate 0 (sixMonthsAgo server0 (isoDate 2024 9 15 + 43200000)) = 1"
    using f window_now_example by (simp_all add: z)
  moreover have "dbDate (sixMonthsAgo server0 (isoDate 2024 9 15 + 43200000)) = isoDate 2024 3 1"
    using w by blast
  moreover have "fst (GET_monthly server0 (isoDate 2024 9 15 + 43200000) (Some ''u2'') dbWindow) = 200"
    using w by simp
  ultimately show ?thesis by (intro conjI)
qed

text \<open>
  Claim C2 as stated fails: the window is not six calendar months including the current
  one.  Called in September 2024 (month index 8), the route returns rows for the seven
  months from March 2024 to September 2024.
\<close>

theorem monthly_window_counterexample:
  "getMonth 0 (isoDate 2024 9 15 + 43200000) = 8 \<and>
   GET_monthly server0 (isoDate 2024 9 15 + 43200000) (Some ''u2'') dbWindow9 =
     (200, MonthlyBody
        [\<lparr>totalCount = 1, daysRecorded = 1, month = ''2024-09''\<rparr>,
         \<lparr>totalCount = 5, daysRecorded = 1, month = ''2024-08''\<rparr>,
         \<lparr>totalCount = 10, daysRecorded = 1, month = ''2024-07''\<rparr>,
         \<lparr>totalCount = 15, daysRecorded = 1, month = ''2024-06''\<rparr>,
         \<lparr>totalCount = 20, daysRecorded = 1, month = ''2024-05''\<rparr>,
         \<lparr>totalCount = 25, daysRecorded = 1, month = ''2024-04''\<rparr>,
         \<lparr>totalCount = 30, daysRecorded = 1, month = ''2024-03''\<rparr>])"
proof -
  have z: "localTZA server0 = 0" by (simp add: server0_def)
  have "GET_monthly server0 (isoDate 2024 9 15 + 43200000) (Some ''u2'') dbWindow9 =
     (200, MonthlyBody
        [\<lparr>totalCount = 1, daysRecorded = 1, month = ''2024-09''\<rparr>,
         \<lparr>totalCount = 5, daysRecorded = 1, month = ''2024-08''\<rparr>,
         \<lparr>totalCount = 10, daysRecorded = 1, month = ''2024-07''\<rparr>,
         \<lparr>totalCount = 15, daysRecorded = 1, month = ''2024-06''\<rparr>,
         \<lparr>totalCount = 20, daysRecorded = 1, month = ''2024-05''\<rparr>,
         \<lparr>totalCount = 25, daysRecorded = 1, month = ''2024-04''\<rparr>,
         \<lparr>totalCount = 30, daysRecorded = 1, month = ''2024-03''\<rparr>])"
    unfolding GET_monthly_fetch [of "''u2''", simplified] window_fetched9 window_ordered9 z
    by (simp add: windowRow_fields monthly_eval window_keys)
  then show ?thesis
    using window_now_example by simp
qed

subsection \<open>Zero counts\<close>

lemma set_orderByDateDesc: "set (orderByDateDesc rs) = set rs"
  by (simp add: orderByDateDesc_def)

lemma GET_ok:
  assumes "uid \<noteq> []" "queryDate rt startDateStr = Inr gte" "queryDate rt endDateStr = Inr lte"
  shows "GET rt (Some uid) startDateStr endDateStr d0 =
           (200, EntriesBody (orderByDateDesc (findMany d0 uid gte lte)))"
  using assms by (simp add: GET_def)

text \<open>
  Where the date passes the schema's bound, a count of zero is stored and listed: the
  list for a range that covers the day holds the record with count 0, and held no record
  of that day before.
\<close>

lemma zero_count_round_trip:
  assumes uid: "uid \<noteq> []"
    and d: "parseDate rt s = Some t" "t \<le> loaded rt"
    and fresh: "\<not> hasEntry d0 uid t"
    and q: "queryDate rt startDateStr = Inr gte" "queryDate rt endDateStr = Inr lte"
    and r: "inRange gte lte (dbDate t)"
  shows "fst (fst (POST rt now (Some uid) (Json (JString s) (JNumber (Finite 0))) d0)) = 201 \<and>
         (\<exists>es. GET rt (Some uid) startDateStr endDateStr
                  (snd (POST rt now (Some uid) (Json (JString s) (JNumber (Finite 0))) d0)) =
                  (200, EntriesBody es) \<and>
               list_ex (\<lambda>e. date e = dbDate t \<and> count e = 0 \<and> userId e = uid) es) \<and>
         (\<exists>es. GET rt (Some uid) startDateStr endDateStr d0 = (200, EntriesBody es) \<and>
               \<not> list_ex (\<lambda>e. date e = dbDate t) es)"
proof -
  have v: "eggProductionSchema rt (dateValue rt (JString s)) (JNumber (Finite 0)) =
      Inr \<lparr>date = t, count = 0\<rparr>"
    unfolding schema_accepts using d by (simp add: dateValue_def isSafeInteger_def isInteger_def
        MAX_SAFE_INTEGER_def)
  note p = POST_valid [OF uid v, of now d0]
  have post: "POST rt now (Some uid) (Json (JString s) (JNumber (Finite 0))) d0 =
      ((201, EntryBody (newEntry d0 uid \<lparr>date = t, count = 0\<rparr> now)),
       d0\<lparr>rows := rows d0 @ [newEntry d0 uid \<lparr>date = t, count = 0\<rparr> now],
          issued := Suc (issued d0)\<rparr>)"
    using p fresh by simp
  have after: "list_ex (\<lambda>e. date e = dbDate t \<and> count e = 0 \<and> userId e = uid)
      (orderByDateDesc (findMany (d0\<lparr>rows := rows d0 @ [newEntry d0 uid \<lparr>date = t, count = 0\<rparr> now],
          issued := Suc (issued d0)\<rparr>) uid gte lte))"
    using r by (auto simp: list_ex_iff set_orderByDateDesc findMany_def newEntry_def)
  have before: "\<not> list_ex (\<lambda>e. date e = dbDate t) (orderByDateDesc (findMany d0 uid gte lte))"
    using fresh by (auto simp: list_ex_iff set_orderByDateDesc findMany_def hasEntry_def)
  show ?thesis
    unfolding post GET_ok [OF uid q] using after before by simp
qed

text \<open>
  Claim C9 (the code departs from it).  A count of zero is accepted and stored, but only
  for a date that is not after the instant at which the schema's module was evaluated: on
  the example server, on 2025-11-19 at 12:00, logging 0 eggs for today is rejected as a
  future date, while logging 0 eggs for 2025-11-16 succeeds.
\<close>

theorem zero_on_today_rejected:
  "isoDate 2025 11 19 \<le> isoDate 2025 11 19 + 43200000 \<and>
   POST server0 (isoDate 2025 11 19 + 43200000) (Some ''u1'')
       (Json (JString ''2025-11-19'') (JNumber (Finite 0))) db1 =
     ((400, ErrorDetails ''Validation failed''
        [Detail ''date''
           ''You cannot log eggs for a future date. Please select today or an earlier date.'']),
      db1) \<and>
   POST server0 (isoDate 2025 11 19 + 43200000) (Some ''u1'')
       (Json (JString ''2025-11-16'') (JNumber (Finite 0))) db1 =
     ((201, EntryBody (newEntry db1 ''u1'' \<lparr>date = isoDate 2025 11 16, count = 0\<rparr>
                         (isoDate 2025 11 19 + 43200000))),
      db1\<lparr>rows := rows db1 @ [newEntry db1 ''u1'' \<lparr>date = isoDate 2025 11 16, count = 0\<rparr>
                         (isoDate 2025 11 19 + 43200000)], issued := Suc (issued db1)\<rparr>)"
  by (simp add: db1_def entryA_def newEntry_def route_eval schema_eval server0_def isoDate_eval
      Let_def)

subsection \<open>The month key and the time zone\<close>

lemma fields_by_day:
  assumes "Day t = Day t'"
  shows "YearFromTime t = YearFromTime t' \<and> MonthFromTime t = MonthFromTime t'"
  using assms
  by (simp add: YearFromTime_def MonthFromTime_def DayWithinYear_def InLeapYear_def)

text \<open>
  The key is taken from the server's local calendar.  On a server at UTC or east of it a
  stored date (midnight UTC of its day) has the key of its own calendar month; west of
  UTC the first day of a month falls into the month before.
\<close>

lemma monthKey_east_of_utc:
  assumes "0 \<le> tza" "tza < msPerDay"
  shows "monthKey tza (dbDate t) = monthKey 0 (dbDate t)"
proof -
  have "Day (LocalTime tza (dbDate t)) = Day (LocalTime 0 (dbDate t))"
    using Day_MakeDate [OF assms, of "Day t"] Day_MakeDate [of 0 "Day t"]
    by (simp add: LocalTime_def dbDate_def MakeDate_def msPerDay_def)
  from fields_by_day [OF this] show ?thesis
    by (simp add: monthKey_def getFullYear_def getMonth_def)
qed

lemma monthKey_west_of_utc:
  "monthKey (- 18000000) (isoDate 2025 10 1) = ''2025-09''"
proof -
  have n: "LocalTime (- 18000000) (isoDate 2025 10 1) = 1759258800000"
    by (simp add: LocalTime_def isoDate_eval)
  have y: "YearFromTime 1759258800000 = 2025"
    by (rule YearFromTime_in) (simp add: Day_def DayFromYear_def msPerDay_def)
  have m: "MonthFromTime 1759258800000 = 8"
    by (simp add: fields_eval y)
  show ?thesis
    by (simp add: monthKey_def getFullYear_def getMonth_def n y m String_def digits.simps
        digitChar_def padStart_def)
qed

lemma monthKey_last_of_september:
  "monthKey (- 18000000) (isoDate 2025 9 30) = ''2025-09''"
proof -
  have n: "LocalTime (- 18000000) (isoDate 2025 9 30) = 1759172400000"
    by (simp add: LocalTime_def isoDate_eval)
  have y: "YearFromTime 1759172400000 = 2025"
    by (rule YearFromTime_in) (simp add: Day_def DayFromYear_def msPerDay_def)
  have m: "MonthFromTime 1759172400000 = 8"
    by (simp add: fields_eval y)
  show ?thesis
    by (simp add: monthKey_def getFullYear_def getMonth_def n y m String_def digits.simps
        digitChar_def padStart_def)
qed

lemma monthKey_utc:
  "monthKey 0 (isoDate 2025 9 30) = ''2025-09''"
  "monthKey 0 (isoDate 2025 10 1) = ''2025-10''"
proof -
  have y: "YearFromTime (isoDate 2025 9 30) = 2025" "YearFromTime (isoDate 2025 10 1) = 2025"
    by (rule YearFromTime_in, simp add: isoDate_eval Day_def DayFromYear_def msPerDay_def)+
  have m: "MonthFromTime (isoDate 2025 9 30) = 8" "MonthFromTime (isoDate 2025 10 1) = 9"
    using y by (simp_all add: fields_eval isoDate_eval)
  show "monthKey 0 (isoDate 2025 9 30) = ''2025-09''"
    "monthKey 0 (isoDate 2025 10 1) = ''2025-10''"
    by (simp_all add: monthKey_def getFullYear_def getMonth_def LocalTime_def y m String_def
        digits.simps digitChar_def padStart_def)
qed

text \<open>
  Claim C1.  The aggregation groups the fetched records by the key "YYYY-MM" of the
  calendar month of their date, sums \<open>count\<close> and counts the records of each group, and
  lists the groups by descending key.  The route reads the month with the local getters
  of the server, while the store returns a date as midnight UTC of its day.  On a server
  five hours west of UTC the record of 2025-10-01 therefore has the key 2025-09, and the
  records 2025-09-30: 5 and 2025-10-01: 8 come back as the single row of 2025-09 (13 eggs,
  2 days); the claim asks for the row of 2025-10 (8 eggs, 1 day) followed by the row of
  2025-09 (5 eggs, 1 day), which is what a server at UTC returns.
\<close>

theorem month_key_is_server_local:
  "dbDate (isoDate 2025 9 30) = isoDate 2025 9 30 \<and>
   dbDate (isoDate 2025 10 1) = isoDate 2025 10 1 \<and>
   monthKey (- 18000000) (isoDate 2025 10 1) = ''2025-09'' \<and>
   monthlyData (- 18000000)
       [\<lparr>date = isoDate 2025 9 30, count = 5\<rparr>, \<lparr>date = isoDate 2025 10 1, count = 8\<rparr>]
     = [\<lparr>totalCount = 13, daysRecorded = 2, month = ''2025-09''\<rparr>] \<and>
   monthlyData 0
       [\<lparr>date = isoDate 2025 9 30, count = 5\<rparr>, \<lparr>date = isoDate 2025 10 1, count = 8\<rparr>]
     = [\<lparr>totalCount = 8, daysRecorded = 1, month = ''2025-10''\<rparr>,
        \<lparr>totalCount = 5, daysRecorded = 1, month = ''2025-09''\<rparr>]"
  by (simp add: dbDate_isoDate monthlyData_def groupByMonth_def addEntry_def
      monthKey_west_of_utc monthKey_last_of_september monthKey_utc toRow_def
      sort_cmp_def localeCompare_def)

end
